theory Spec2Isabelle
  imports Main "HOL-Library.Word"
begin

section \<open>Data model of main.cpp\<close>

text \<open>
  The game constants. \<open>MAX_SNAKE_LENGTH\<close> is the number of slots of the tail array,
  \<open>GRID_SIZE\<close> the side of the LED matrix.
\<close>

abbreviation MAX_SNAKE_LENGTH :: int where "MAX_SNAKE_LENGTH \<equiv> 24"
abbreviation GRID_SIZE :: int where "GRID_SIZE \<equiv> 5"
abbreviation HEAD_BRIGHTNESS :: nat where "HEAD_BRIGHTNESS \<equiv> 255"
abbreviation TAIL_BRIGHTNESS :: nat where "TAIL_BRIGHTNESS \<equiv> 128"
abbreviation FOOD_BRIGHTNESS :: nat where "FOOD_BRIGHTNESS \<equiv> 255"

datatype Direction = UP | DOWN | LEFT | RIGHT

datatype Turn = TURN_NONE | TURN_LEFT | TURN_RIGHT

datatype GameStatus = ONGOING | WON | LOST

datatype StepOutcome = MOVE | EAT | COLLISION | FULL

text \<open>
  \<open>Coords\<close> holds two \<open>int8_t\<close>: 8-bit words, read as signed numbers with \<open>sint\<close>
  wherever the source compares them.
\<close>

record Coords =
  row :: "8 word"
  col :: "8 word"

text \<open>
  The tail is the C array \<open>Coords tail[MAX_SNAKE_LENGTH]\<close>: a list that always has 24
  entries, of which the first \<open>tailLength\<close> are in use. \<open>tailLength\<close> is a C \<open>int\<close>;
  it is modelled as an unbounded integer, since every access with an index outside
  \<open>0..23\<close> is reported as a fault before the counter could leave the range of \<open>int\<close>.
\<close>

record Snake =
  head :: Coords
  tail :: "Coords list"
  tailLength :: int
  direction :: Direction

record Game =
  snake :: Snake
  foodCoords :: Coords
  speed :: "8 word"
  status :: GameStatus
  score :: "8 word"

text \<open>The two global variables of the program: \<open>game\<close> and \<open>currentTurn\<close>.\<close>

record Globals =
  game :: Game
  currentTurn :: Turn

text \<open>
  What the C program can do besides returning: index the tail array outside its 24
  slots (undefined behaviour), or stay in the sampling loop of \<open>getRandomCoords\<close>.
  The results of \<open>rand()\<close> are an input of the model, a list of naturals consumed from
  the front; \<open>OutOfRandom\<close> says that the loop has not left within the supplied results.
\<close>

datatype fault = ArrayOutOfBounds | OutOfRandom

type_synonym pixel = "int \<times> int \<times> nat"

section \<open>The functions of main.cpp\<close>

definition coordsEqual :: "Coords \<Rightarrow> Coords \<Rightarrow> bool" where
  "coordsEqual a b = (row a = row b \<and> col a = col b)"

text \<open>The loop of \<open>coordsInSnake\<close> over the indices \<open>0 .. tailLength - 1\<close>, with its early return.\<close>

fun scanTail :: "Coords \<Rightarrow> Coords list \<Rightarrow> nat list \<Rightarrow> fault + bool" where
  "scanTail coords arr [] = Inr False"
| "scanTail coords arr (i # is) =
     (if i < length arr
      then (if coordsEqual coords (arr ! i) then Inr True else scanTail coords arr is)
      else Inl ArrayOutOfBounds)"

definition coordsInSnake :: "Coords \<Rightarrow> Game \<Rightarrow> fault + bool" where
  "coordsInSnake coords g =
     (if coordsEqual coords (head (snake g)) then Inr True
      else scanTail coords (tail (snake g)) [0 ..< nat (tailLength (snake g))])"

text \<open>
  The do-while loop of \<open>getRandomCoords\<close>: each round takes two results of \<open>rand()\<close>
  (non-negative, so \<open>%\<close> is \<open>mod\<close>) and ends when the cell is not in the snake.
\<close>

fun getRandomCoords :: "nat list \<Rightarrow> Game \<Rightarrow> fault + (Coords \<times> nat list)" where
  "getRandomCoords (r1 # r2 # rs) g =
     (let coords = \<lparr>row = of_nat (r1 mod 5), col = of_nat (r2 mod 5)\<rparr> in
      case coordsInSnake coords g of
        Inl e \<Rightarrow> Inl e
      | Inr occupied \<Rightarrow> if occupied then getRandomCoords rs g else Inr (coords, rs))"
| "getRandomCoords _ g = Inl OutOfRandom"

definition placeFood :: "nat list \<Rightarrow> Game \<Rightarrow> fault + (Game \<times> nat list)" where
  "placeFood rs g =
     (case getRandomCoords rs g of
        Inl e \<Rightarrow> Inl e
      | Inr (coords, rs') \<Rightarrow> Inr (g\<lparr>foodCoords := coords\<rparr>, rs'))"

definition initGame :: "nat list \<Rightarrow> Game \<Rightarrow> fault + (Game \<times> nat list)" where
  "initGame rs g =
     (let s1 = (snake g)\<lparr>head := \<lparr>row = 2, col = 2\<rparr>\<rparr>;
          s2 = s1\<lparr>tail := (tail s1)[0 := \<lparr>row = 2, col = 1\<rparr>]\<rparr>;
          s3 = s2\<lparr>tailLength := 1, direction := RIGHT\<rparr>;
          g1 = g\<lparr>snake := s3, speed := 1, status := ONGOING, score := 0\<rparr>
      in placeFood rs g1)"

definition resetGame :: "nat list \<Rightarrow> Globals \<Rightarrow> fault + (Globals \<times> nat list)" where
  "resetGame rs w =
     (case initGame rs (game w) of
        Inl e \<Rightarrow> Inl e
      | Inr (g, rs') \<Rightarrow> Inr (\<lparr>game = g, currentTurn = TURN_NONE\<rparr>, rs'))"

definition wraparound :: "Coords \<Rightarrow> Coords" where
  "wraparound coords =
     (let r1 = (if sint (row coords) < 0 then coords\<lparr>row := 4\<rparr>
                else if sint (row coords) \<ge> GRID_SIZE then coords\<lparr>row := 0\<rparr>
                else coords)
      in if sint (col r1) < 0 then r1\<lparr>col := 4\<rparr>
         else if sint (col r1) \<ge> GRID_SIZE then r1\<lparr>col := 0\<rparr>
         else r1)"

definition isOutOfBounds :: "Coords \<Rightarrow> bool" where
  "isOutOfBounds coords =
     (sint (row coords) < 0 \<or> sint (row coords) \<ge> GRID_SIZE \<or>
      sint (col coords) < 0 \<or> sint (col coords) \<ge> GRID_SIZE)"

definition getNextMove :: "Game \<Rightarrow> Coords" where
  "getNextMove g =
     (let h = head (snake g);
          nextMove = (case direction (snake g) of
                        UP \<Rightarrow> h\<lparr>row := row h - 1\<rparr>
                      | DOWN \<Rightarrow> h\<lparr>row := row h + 1\<rparr>
                      | LEFT \<Rightarrow> h\<lparr>col := col h - 1\<rparr>
                      | RIGHT \<Rightarrow> h\<lparr>col := col h + 1\<rparr>)
      in if isOutOfBounds nextMove then wraparound nextMove else nextMove)"

definition getStepOutcome :: "Game \<Rightarrow> fault + StepOutcome" where
  "getStepOutcome g =
     (let nextMove = getNextMove g in
      case coordsInSnake nextMove g of
        Inl e \<Rightarrow> Inl e
      | Inr inSnake \<Rightarrow>
          if inSnake \<and> \<not> coordsEqual nextMove (tail (snake g) ! 0) then Inr COLLISION
          else if coordsEqual nextMove (foodCoords g)
          then (if tailLength (snake g) \<ge> MAX_SNAKE_LENGTH - 1 then Inr FULL else Inr EAT)
          else Inr MOVE)"

text \<open>
  The two shifting loops of \<open>moveSnake\<close>, over the indices in the order the source
  visits them: \<open>tail[i] = tail[i + 1]\<close> for \<open>i = 0 .. tailLength - 2\<close>, and
  \<open>tail[i] = tail[i - 1]\<close> for \<open>i = tailLength\<close> down to \<open>1\<close>.
\<close>

fun shiftDown :: "Coords list \<Rightarrow> nat list \<Rightarrow> fault + Coords list" where
  "shiftDown arr [] = Inr arr"
| "shiftDown arr (i # is) =
     (if i + 1 < length arr then shiftDown (arr[i := arr ! (i + 1)]) is
      else Inl ArrayOutOfBounds)"

fun shiftUp :: "Coords list \<Rightarrow> nat list \<Rightarrow> fault + Coords list" where
  "shiftUp arr [] = Inr arr"
| "shiftUp arr (i # is) =
     (if i < length arr then shiftUp (arr[i := arr ! (i - 1)]) is
      else Inl ArrayOutOfBounds)"

definition moveSnake :: "Coords \<Rightarrow> bool \<Rightarrow> Game \<Rightarrow> fault + Game" where
  "moveSnake coords extending g =
     (let s = snake g; n = tailLength s in
      if \<not> extending then
        (case shiftDown (tail s) [0 ..< nat (n - 1)] of
           Inl e \<Rightarrow> Inl e
         | Inr arr \<Rightarrow>
             if 0 \<le> n - 1 \<and> n - 1 < int (length arr)
             then Inr (g\<lparr>snake := s\<lparr>tail := arr[nat (n - 1) := head s], head := coords\<rparr>\<rparr>)
             else Inl ArrayOutOfBounds)
      else
        (case shiftUp (tail s) (rev [1 ..< nat n + 1]) of
           Inl e \<Rightarrow> Inl e
         | Inr arr \<Rightarrow>
             Inr (g\<lparr>snake := s\<lparr>tail := arr[0 := head s], tailLength := n + 1,
                                  head := coords\<rparr>\<rparr>)))"

definition handleStepOutcome ::
    "nat list \<Rightarrow> StepOutcome \<Rightarrow> Game \<Rightarrow> fault + (Game \<times> nat list)" where
  "handleStepOutcome rs outcome g =
     (let nextMove = getNextMove g in
      case outcome of
        COLLISION \<Rightarrow> Inr (g\<lparr>status := LOST\<rparr>, rs)
      | FULL \<Rightarrow>
          (case moveSnake nextMove True g of
             Inl e \<Rightarrow> Inl e
           | Inr g1 \<Rightarrow> Inr (g1\<lparr>status := WON\<rparr>, rs))
      | EAT \<Rightarrow>
          (case moveSnake nextMove True g of
             Inl e \<Rightarrow> Inl e
           | Inr g1 \<Rightarrow>
               (case placeFood rs g1 of
                  Inl e \<Rightarrow> Inl e
                | Inr (g2, rs') \<Rightarrow>
                    (let g3 = g2\<lparr>score := score g2 + 1\<rparr> in
                     Inr (if uint (score g3) mod 5 = 0 then g3\<lparr>speed := speed g3 + 1\<rparr>
                          else g3, rs'))))
      | MOVE \<Rightarrow>
          (case moveSnake nextMove False g of
             Inl e \<Rightarrow> Inl e
           | Inr g1 \<Rightarrow> Inr (g1, rs)))"

fun turnDirection :: "Turn \<Rightarrow> Direction \<Rightarrow> Direction" where
  "turnDirection TURN_LEFT UP = LEFT"
| "turnDirection TURN_LEFT DOWN = RIGHT"
| "turnDirection TURN_LEFT LEFT = DOWN"
| "turnDirection TURN_LEFT RIGHT = UP"
| "turnDirection TURN_RIGHT UP = RIGHT"
| "turnDirection TURN_RIGHT DOWN = LEFT"
| "turnDirection TURN_RIGHT LEFT = UP"
| "turnDirection TURN_RIGHT RIGHT = DOWN"
| "turnDirection TURN_NONE d = d"

definition turnSnake :: "Turn \<Rightarrow> Game \<Rightarrow> Game" where
  "turnSnake turn g = g\<lparr>snake := (snake g)\<lparr>direction := turnDirection turn (direction (snake g))\<rparr>\<rparr>"

definition stepGame :: "nat list \<Rightarrow> Globals \<Rightarrow> fault + (Globals \<times> nat list)" where
  "stepGame rs w =
     (let g1 = turnSnake (currentTurn w) (game w) in
      case getStepOutcome g1 of
        Inl e \<Rightarrow> Inl e
      | Inr outcome \<Rightarrow>
          (case handleStepOutcome rs outcome g1 of
             Inl e \<Rightarrow> Inl e
           | Inr (g2, rs') \<Rightarrow> Inr (\<lparr>game = g2, currentTurn = TURN_NONE\<rparr>, rs')))"

text \<open>
  In \<open>score % 5\<close> and \<open>score / 5\<close> the \<open>uint8_t\<close> is promoted to \<open>int\<close>, hence \<open>uint\<close>.
  \<open>getStepLengthMs\<close> computes in \<open>int32_t\<close>; with \<open>speed\<close> a \<open>uint8_t\<close> the value lies
  between \<open>1000 - 200 * 254\<close> and \<open>1200\<close>, so no operation wraps, and the result, at
  least 200, is unchanged by the cast to \<open>uint32_t\<close>.
\<close>

definition getStepLengthMs :: "Game \<Rightarrow> int" where
  "getStepLengthMs g =
     (let stepLength = 1000 - 200 * (uint (speed g) - 1) in
      if stepLength < 200 then 200 else stepLength)"

text \<open>
  The display is modelled by the list of \<open>setPixelValue (x, y, brightness)\<close> calls
  that follow the clearing of the screen, in the order of the calls.
\<close>

fun drawTail :: "Coords list \<Rightarrow> nat list \<Rightarrow> fault + pixel list" where
  "drawTail arr [] = Inr []"
| "drawTail arr (i # is) =
     (if i < length arr
      then (case drawTail arr is of
              Inl e \<Rightarrow> Inl e
            | Inr ps \<Rightarrow> Inr ((sint (col (arr ! i)), sint (row (arr ! i)), TAIL_BRIGHTNESS) # ps))
      else Inl ArrayOutOfBounds)"

definition displayGameState :: "Game \<Rightarrow> fault + pixel list" where
  "displayGameState g =
     (case drawTail (tail (snake g)) [0 ..< nat (tailLength (snake g))] of
        Inl e \<Rightarrow> Inl e
      | Inr ps \<Rightarrow>
          Inr ([(sint (col (head (snake g))), sint (row (head (snake g))), HEAD_BRIGHTNESS)]
               @ ps
               @ [(sint (col (foodCoords g)), sint (row (foodCoords g)), FOOD_BRIGHTNESS)]))"

definition displayScore :: "Game \<Rightarrow> pixel list" where
  "displayScore g =
     (let fullRows = uint (score g) div 5;
          remainingCols = uint (score g) mod 5
      in concat (map (\<lambda>r. map (\<lambda>c. (int c, int r, 255)) [0 ..< 5]) [0 ..< nat fullRows])
         @ map (\<lambda>c. (int c, fullRows, 255)) [0 ..< nat remainingCols])"

definition handleButtonA :: "Globals \<Rightarrow> Globals" where
  "handleButtonA w = w\<lparr>currentTurn := TURN_LEFT\<rparr>"

definition handleButtonB :: "Globals \<Rightarrow> Globals" where
  "handleButtonB w = w\<lparr>currentTurn := TURN_RIGHT\<rparr>"

section \<open>The program: reachable states\<close>

text \<open>
  The globals have static storage, so they start zero-initialised: every enum holds its
  first constant and every tail slot is \<open>(0, 0)\<close>.
\<close>

definition zeroGame :: Game where
  "zeroGame =
     \<lparr>snake = \<lparr>head = \<lparr>row = 0, col = 0\<rparr>, tail = replicate 24 \<lparr>row = 0, col = 0\<rparr>,
               tailLength = 0, direction = UP\<rparr>,
      foodCoords = \<lparr>row = 0, col = 0\<rparr>, speed = 0, status = ONGOING, score = 0\<rparr>"

text \<open>
  The states \<open>main\<close> can be in between two calls: after \<open>initGame\<close>; after a button
  handler, which may run at any time; after \<open>stepGame\<close>, which the game loop calls only
  while the status is \<open>ONGOING\<close>; and after \<open>resetGame\<close>, called once the loop is left.
  The results of \<open>rand()\<close> are arbitrary.
\<close>

inductive reachable :: "Globals \<Rightarrow> bool" where
  start: "initGame rs zeroGame = Inr (g, rs') \<Longrightarrow>
          reachable \<lparr>game = g, currentTurn = TURN_NONE\<rparr>"
| buttonA: "reachable w \<Longrightarrow> reachable (handleButtonA w)"
| buttonB: "reachable w \<Longrightarrow> reachable (handleButtonB w)"
| step: "reachable w \<Longrightarrow> status (game w) = ONGOING \<Longrightarrow> stepGame rs w = Inr (w', rs') \<Longrightarrow>
         reachable w'"
| reset: "reachable w \<Longrightarrow> status (game w) \<noteq> ONGOING \<Longrightarrow> resetGame rs w = Inr (w', rs') \<Longrightarrow>
          reachable w'"

section \<open>Notions used by the properties\<close>

text \<open>A coordinate lies on the 5 x 5 grid.\<close>

definition inGrid :: "Coords \<Rightarrow> bool" where
  "inGrid c =
     (0 \<le> sint (row c) \<and> sint (row c) < GRID_SIZE \<and> 0 \<le> sint (col c) \<and> sint (col c) < GRID_SIZE)"

text \<open>
  The cells of the snake: the head, then the slots \<open>tail[0 .. tailLength - 1]\<close> in the
  order of the array. These are the cells \<open>coordsInSnake\<close> and \<open>displayGameState\<close> visit.
\<close>

definition occupied :: "Game \<Rightarrow> Coords list" where
  "occupied g = head (snake g) # take (nat (tailLength (snake g))) (tail (snake g))"

text \<open>
  The game after the first statement of \<open>stepGame\<close> (the pending turn is applied), and the
  candidate next head cell, the value of \<open>getNextMove\<close> there.
\<close>

definition turned :: "Globals \<Rightarrow> Game" where
  "turned w = turnSnake (currentTurn w) (game w)"

definition candidate :: "Globals \<Rightarrow> Coords" where
  "candidate w = getNextMove (turned w)"

text \<open>
  The invariant of the reachable states. The last block holds while the game is not won:
  after the winning step the food lies under the head and the tail fills all 24 slots.
\<close>

definition gameInv :: "Game \<Rightarrow> bool" where
  "gameInv g =
     (length (tail (snake g)) = 24 \<and>
      1 \<le> tailLength (snake g) \<and> tailLength (snake g) \<le> MAX_SNAKE_LENGTH \<and>
      inGrid (head (snake g)) \<and> (\<forall>c \<in> set (tail (snake g)). inGrid c) \<and>
      inGrid (foodCoords g) \<and> uint (score g) \<le> 22 \<and>
      uint (speed g) = 1 + uint (score g) div 5 \<and>
      (status g \<noteq> WON \<longrightarrow>
         tailLength (snake g) \<le> MAX_SNAKE_LENGTH - 1 \<and>
         distinct (occupied g) \<and> foodCoords g \<notin> set (occupied g) \<and>
         uint (score g) = tailLength (snake g) - 1))"

text \<open>
  The game loop of \<open>main\<close>, \<open>while (game.status == ONGOING) { ...; stepGame(); }\<close>, run
  on a script: for each round the button event that arrives before the step (if any)
  and the results of \<open>rand()\<close> the step may consume. It stops when the loop is left or
  the script ends.
\<close>

fun press :: "Turn \<Rightarrow> Globals \<Rightarrow> Globals" where
  "press TURN_NONE w = w"
| "press TURN_LEFT w = handleButtonA w"
| "press TURN_RIGHT w = handleButtonB w"

fun gameLoop :: "(Turn \<times> nat list) list \<Rightarrow> Globals \<Rightarrow> fault + Globals" where
  "gameLoop [] w = Inr w"
| "gameLoop ((t, rs) # rest) w =
     (if status (game w) = ONGOING
      then (case stepGame rs (press t w) of
              Inl e \<Rightarrow> Inl e
            | Inr (w', rs') \<Rightarrow> gameLoop rest w')
      else Inr w)"

section \<open>The step algorithm of the specification\<close>

text \<open>
  The step of section 4.1 of the specification, written from its words and not from the
  source: the tail is a sequence ordered from the segment nearest the head to the
  trailing end; a plain move drops the trailing segment and inserts the vacated head
  position at the front; an extending move inserts it at the front and drops nothing; a
  candidate on the snake is a collision unless it is the trailing end, the candidate is
  not the food, and the snake does not extend. Cells are pairs (row, column) of integers.
\<close>

type_synonym cell = "int \<times> int"

record SpecGame =
  spHead :: cell
  spTail :: "cell list"
  spDirection :: Direction
  spFood :: cell
  spSpeed :: int
  spStatus :: GameStatus
  spScore :: int
  spPending :: Turn

fun spec_turn :: "Turn \<Rightarrow> Direction \<Rightarrow> Direction" where
  "spec_turn TURN_NONE d = d"
| "spec_turn TURN_LEFT UP = LEFT"
| "spec_turn TURN_LEFT DOWN = RIGHT"
| "spec_turn TURN_LEFT LEFT = DOWN"
| "spec_turn TURN_LEFT RIGHT = UP"
| "spec_turn TURN_RIGHT UP = RIGHT"
| "spec_turn TURN_RIGHT DOWN = LEFT"
| "spec_turn TURN_RIGHT LEFT = UP"
| "spec_turn TURN_RIGHT RIGHT = DOWN"

definition spec_wrap :: "int \<Rightarrow> int" where
  "spec_wrap x = (if x < 0 then GRID_SIZE - 1 else if x = GRID_SIZE then 0 else x)"

fun spec_move :: "Direction \<Rightarrow> cell \<Rightarrow> cell" where
  "spec_move UP (r, c) = (spec_wrap (r - 1), spec_wrap c)"
| "spec_move DOWN (r, c) = (spec_wrap (r + 1), spec_wrap c)"
| "spec_move LEFT (r, c) = (spec_wrap r, spec_wrap (c - 1))"
| "spec_move RIGHT (r, c) = (spec_wrap r, spec_wrap (c + 1))"

fun spec_sample :: "nat list \<Rightarrow> cell list \<Rightarrow> (cell \<times> nat list) option" where
  "spec_sample (r1 # r2 # rs) occ =
     (let c = (int (r1 mod 5), int (r2 mod 5)) in
      if c \<in> set occ then spec_sample rs occ else Some (c, rs))"
| "spec_sample _ occ = None"

definition spec_step :: "nat list \<Rightarrow> SpecGame \<Rightarrow> (SpecGame \<times> nat list) option" where
  "spec_step rs s =
     (let d = spec_turn (spPending s) (spDirection s);
          s1 = s\<lparr>spDirection := d, spPending := TURN_NONE\<rparr>;
          c = spec_move d (spHead s)
      in if c \<in> set (spHead s # spTail s) \<and>
            \<not> (spTail s \<noteq> [] \<and> c = last (spTail s) \<and> c \<noteq> spFood s)
         then Some (s1\<lparr>spStatus := LOST\<rparr>, rs)
         else if c = spFood s \<and> int (length (spTail s)) \<ge> MAX_SNAKE_LENGTH - 1
         then Some (s1\<lparr>spHead := c, spTail := spHead s # spTail s, spStatus := WON\<rparr>, rs)
         else if c = spFood s
         then (case spec_sample rs (c # spHead s # spTail s) of
                 None \<Rightarrow> None
               | Some (f, rs') \<Rightarrow>
                   Some (s1\<lparr>spHead := c, spTail := spHead s # spTail s, spFood := f,
                            spScore := spScore s + 1,
                            spSpeed := (if (spScore s + 1) mod 5 = 0 then spSpeed s + 1
                                        else spSpeed s)\<rparr>, rs'))
         else Some (s1\<lparr>spHead := c, spTail := spHead s # butlast (spTail s)\<rparr>, rs))"

text \<open>What an observer of the program sees of a state, in the terms of the specification.\<close>

definition cellOf :: "Coords \<Rightarrow> cell" where
  "cellOf c = (sint (row c), sint (col c))"

definition specOf :: "Globals \<Rightarrow> SpecGame" where
  "specOf w =
     \<lparr>spHead = cellOf (head (snake (game w))),
      spTail = map cellOf (take (nat (tailLength (snake (game w)))) (tail (snake (game w)))),
      spDirection = direction (snake (game w)),
      spFood = cellOf (foodCoords (game w)),
      spSpeed = uint (speed (game w)),
      spStatus = status (game w),
      spScore = uint (score (game w)),
      spPending = currentTurn w\<rparr>"

section \<open>Concrete runs\<close>

text \<open>
  The state after \<open>initGame\<close> when the first two results of \<open>rand()\<close> are 2 and 3: the
  food lies right of the head.
\<close>

definition startState :: Globals where
  "startState =
     \<lparr>game =
       \<lparr>snake =
          \<lparr>head = \<lparr>row = 2, col = 2\<rparr>,
           tail = [\<lparr>row = 2, col = 1\<rparr>, \<lparr>row = 0, col = 0\<rparr>, \<lparr>row = 0, col = 0\<rparr>,
                   \<lparr>row = 0, col = 0\<rparr>, \<lparr>row = 0, col = 0\<rparr>, \<lparr>row = 0, col = 0\<rparr>,
                   \<lparr>row = 0, col = 0\<rparr>, \<lparr>row = 0, col = 0\<rparr>, \<lparr>row = 0, col = 0\<rparr>,
                   \<lparr>row = 0, col = 0\<rparr>, \<lparr>row = 0, col = 0\<rparr>, \<lparr>row = 0, col = 0\<rparr>,
                   \<lparr>row = 0, col = 0\<rparr>, \<lparr>row = 0, col = 0\<rparr>, \<lparr>row = 0, col = 0\<rparr>,
                   \<lparr>row = 0, col = 0\<rparr>, \<lparr>row = 0, col = 0\<rparr>, \<lparr>row = 0, col = 0\<rparr>,
                   \<lparr>row = 0, col = 0\<rparr>, \<lparr>row = 0, col = 0\<rparr>, \<lparr>row = 0, col = 0\<rparr>,
                   \<lparr>row = 0, col = 0\<rparr>, \<lparr>row = 0, col = 0\<rparr>, \<lparr>row = 0, col = 0\<rparr>],
           tailLength = 1, direction = RIGHT\<rparr>,
        foodCoords = \<lparr>row = 2, col = 3\<rparr>, speed = 1, status = ONGOING, score = 0\<rparr>,
        currentTurn = TURN_NONE\<rparr>"

text \<open>
  A script that leads the snake through all 25 cells, eating at every step: row 2 to the
  right, then rows 3, 4, 0 and 1, each entered by a right turn followed by a left turn.
  The results of \<open>rand()\<close> put each new food on the next cell of the path.
\<close>

definition fillScript :: "(Turn \<times> nat list) list" where
  "fillScript =
     [(TURN_NONE, [2, 4]),
      (TURN_NONE, [3, 4]),
      (TURN_RIGHT, [3, 0]),
      (TURN_LEFT, [3, 1]),
      (TURN_NONE, [3, 2]),
      (TURN_NONE, [3, 3]),
      (TURN_NONE, [4, 3]),
      (TURN_RIGHT, [4, 4]),
      (TURN_LEFT, [4, 0]),
      (TURN_NONE, [4, 1]),
      (TURN_NONE, [4, 2]),
      (TURN_NONE, [0, 2]),
      (TURN_RIGHT, [0, 3]),
      (TURN_LEFT, [0, 4]),
      (TURN_NONE, [0, 0]),
      (TURN_NONE, [0, 1]),
      (TURN_NONE, [1, 1]),
      (TURN_RIGHT, [1, 2]),
      (TURN_LEFT, [1, 3]),
      (TURN_NONE, [1, 4]),
      (TURN_NONE, [1, 0]),
      (TURN_NONE, [2, 0]),
      (TURN_RIGHT, [])]"

text \<open>The states after 21 and 22 steps of the script, and the final one.\<close>

definition length22State :: Globals where
  "length22State =
     \<lparr>game =
       \<lparr>snake =
          \<lparr>head = \<lparr>row = 1, col = 4\<rparr>,
           tail = [\<lparr>row = 1, col = 3\<rparr>, \<lparr>row = 1, col = 2\<rparr>, \<lparr>row = 1, col = 1\<rparr>,
                   \<lparr>row = 0, col = 1\<rparr>, \<lparr>row = 0, col = 0\<rparr>, \<lparr>row = 0, col = 4\<rparr>,
                   \<lparr>row = 0, col = 3\<rparr>, \<lparr>row = 0, col = 2\<rparr>, \<lparr>row = 4, col = 2\<rparr>,
                   \<lparr>row = 4, col = 1\<rparr>, \<lparr>row = 4, col = 0\<rparr>, \<lparr>row = 4, col = 4\<rparr>,
                   \<lparr>row = 4, col = 3\<rparr>, \<lparr>row = 3, col = 3\<rparr>, \<lparr>row = 3, col = 2\<rparr>,
                   \<lparr>row = 3, col = 1\<rparr>, \<lparr>row = 3, col = 0\<rparr>, \<lparr>row = 3, col = 4\<rparr>,
                   \<lparr>row = 2, col = 4\<rparr>, \<lparr>row = 2, col = 3\<rparr>, \<lparr>row = 2, col = 2\<rparr>,
                   \<lparr>row = 2, col = 1\<rparr>, \<lparr>row = 0, col = 0\<rparr>, \<lparr>row = 0, col = 0\<rparr>],
           tailLength = 22, direction = RIGHT\<rparr>,
        foodCoords = \<lparr>row = 1, col = 0\<rparr>, speed = 5, status = ONGOING, score = 21\<rparr>,
        currentTurn = TURN_NONE\<rparr>"

definition length23State :: Globals where
  "length23State =
     \<lparr>game =
       \<lparr>snake =
          \<lparr>head = \<lparr>row = 1, col = 0\<rparr>,
           tail = [\<lparr>row = 1, col = 4\<rparr>, \<lparr>row = 1, col = 3\<rparr>, \<lparr>row = 1, col = 2\<rparr>,
                   \<lparr>row = 1, col = 1\<rparr>, \<lparr>row = 0, col = 1\<rparr>, \<lparr>row = 0, col = 0\<rparr>,
                   \<lparr>row = 0, col = 4\<rparr>, \<lparr>row = 0, col = 3\<rparr>, \<lparr>row = 0, col = 2\<rparr>,
                   \<lparr>row = 4, col = 2\<rparr>, \<lparr>row = 4, col = 1\<rparr>, \<lparr>row = 4, col = 0\<rparr>,
                   \<lparr>row = 4, col = 4\<rparr>, \<lparr>row = 4, col = 3\<rparr>, \<lparr>row = 3, col = 3\<rparr>,
                   \<lparr>row = 3, col = 2\<rparr>, \<lparr>row = 3, col = 1\<rparr>, \<lparr>row = 3, col = 0\<rparr>,
                   \<lparr>row = 3, col = 4\<rparr>, \<lparr>row = 2, col = 4\<rparr>, \<lparr>row = 2, col = 3\<rparr>,
                   \<lparr>row = 2, col = 2\<rparr>, \<lparr>row = 2, col = 1\<rparr>, \<lparr>row = 0, col = 0\<rparr>],
           tailLength = 23, direction = RIGHT\<rparr>,
        foodCoords = \<lparr>row = 2, col = 0\<rparr>, speed = 5, status = ONGOING, score = 22\<rparr>,
        currentTurn = TURN_NONE\<rparr>"

definition wonState :: Globals where
  "wonState =
     \<lparr>game =
       \<lparr>snake =
          \<lparr>head = \<lparr>row = 2, col = 0\<rparr>,
           tail = [\<lparr>row = 1, col = 0\<rparr>, \<lparr>row = 1, col = 4\<rparr>, \<lparr>row = 1, col = 3\<rparr>,
                   \<lparr>row = 1, col = 2\<rparr>, \<lparr>row = 1, col = 1\<rparr>, \<lparr>row = 0, col = 1\<rparr>,
                   \<lparr>row = 0, col = 0\<rparr>, \<lparr>row = 0, col = 4\<rparr>, \<lparr>row = 0, col = 3\<rparr>,
                   \<lparr>row = 0, col = 2\<rparr>, \<lparr>row = 4, col = 2\<rparr>, \<lparr>row = 4, col = 1\<rparr>,
                   \<lparr>row = 4, col = 0\<rparr>, \<lparr>row = 4, col = 4\<rparr>, \<lparr>row = 4, col = 3\<rparr>,
                   \<lparr>row = 3, col = 3\<rparr>, \<lparr>row = 3, col = 2\<rparr>, \<lparr>row = 3, col = 1\<rparr>,
                   \<lparr>row = 3, col = 0\<rparr>, \<lparr>row = 3, col = 4\<rparr>, \<lparr>row = 2, col = 4\<rparr>,
                   \<lparr>row = 2, col = 3\<rparr>, \<lparr>row = 2, col = 2\<rparr>, \<lparr>row = 2, col = 1\<rparr>],
           tailLength = 24, direction = DOWN\<rparr>,
        foodCoords = \<lparr>row = 2, col = 0\<rparr>, speed = 5, status = WON, score = 22\<rparr>,
        currentTurn = TURN_NONE\<rparr>"

text \<open>
  After one meal: from \<open>startState\<close> the snake eats at (2, 3), the next food falls on
  (0, 0). Then one plain move to the right.
\<close>

definition fedState :: Globals where
  "fedState =
     \<lparr>game =
       \<lparr>snake =
          \<lparr>head = \<lparr>row = 2, col = 3\<rparr>,
           tail = [\<lparr>row = 2, col = 2\<rparr>, \<lparr>row = 2, col = 1\<rparr>, \<lparr>row = 0, col = 0\<rparr>,
                   \<lparr>row = 0, col = 0\<rparr>, \<lparr>row = 0, col = 0\<rparr>, \<lparr>row = 0, col = 0\<rparr>,
                   \<lparr>row = 0, col = 0\<rparr>, \<lparr>row = 0, col = 0\<rparr>, \<lparr>row = 0, col = 0\<rparr>,
                   \<lparr>row = 0, col = 0\<rparr>, \<lparr>row = 0, col = 0\<rparr>, \<lparr>row = 0, col = 0\<rparr>,
                   \<lparr>row = 0, col = 0\<rparr>, \<lparr>row = 0, col = 0\<rparr>, \<lparr>row = 0, col = 0\<rparr>,
                   \<lparr>row = 0, col = 0\<rparr>, \<lparr>row = 0, col = 0\<rparr>, \<lparr>row = 0, col = 0\<rparr>,
                   \<lparr>row = 0, col = 0\<rparr>, \<lparr>row = 0, col = 0\<rparr>, \<lparr>row = 0, col = 0\<rparr>,
                   \<lparr>row = 0, col = 0\<rparr>, \<lparr>row = 0, col = 0\<rparr>, \<lparr>row = 0, col = 0\<rparr>],
           tailLength = 2, direction = RIGHT\<rparr>,
        foodCoords = \<lparr>row = 0, col = 0\<rparr>, speed = 1, status = ONGOING, score = 1\<rparr>,
        currentTurn = TURN_NONE\<rparr>"

definition fedMovedState :: Globals where
  "fedMovedState =
     \<lparr>game =
       \<lparr>snake =
          \<lparr>head = \<lparr>row = 2, col = 4\<rparr>,
           tail = [\<lparr>row = 2, col = 1\<rparr>, \<lparr>row = 2, col = 3\<rparr>, \<lparr>row = 0, col = 0\<rparr>,
                   \<lparr>row = 0, col = 0\<rparr>, \<lparr>row = 0, col = 0\<rparr>, \<lparr>row = 0, col = 0\<rparr>,
                   \<lparr>row = 0, col = 0\<rparr>, \<lparr>row = 0, col = 0\<rparr>, \<lparr>row = 0, col = 0\<rparr>,
                   \<lparr>row = 0, col = 0\<rparr>, \<lparr>row = 0, col = 0\<rparr>, \<lparr>row = 0, col = 0\<rparr>,
                   \<lparr>row = 0, col = 0\<rparr>, \<lparr>row = 0, col = 0\<rparr>, \<lparr>row = 0, col = 0\<rparr>,
                   \<lparr>row = 0, col = 0\<rparr>, \<lparr>row = 0, col = 0\<rparr>, \<lparr>row = 0, col = 0\<rparr>,
                   \<lparr>row = 0, col = 0\<rparr>, \<lparr>row = 0, col = 0\<rparr>, \<lparr>row = 0, col = 0\<rparr>,
                   \<lparr>row = 0, col = 0\<rparr>, \<lparr>row = 0, col = 0\<rparr>, \<lparr>row = 0, col = 0\<rparr>],
           tailLength = 2, direction = RIGHT\<rparr>,
        foodCoords = \<lparr>row = 0, col = 0\<rparr>, speed = 1, status = ONGOING, score = 1\<rparr>,
        currentTurn = TURN_NONE\<rparr>"

text \<open>
  A snake bent into a square. After \<open>initGame\<close> with the food at (3, 2), two right turns
  with a meal each lead the head from (2, 2) over (3, 2) to (3, 1); the body is (3, 2),
  (2, 2) and, at its trailing end, the initial tail cell (2, 1). Button B is pressed
  once more, so the next step goes up, onto (2, 1).
\<close>

definition squareStart :: Globals where
  "squareStart =
     \<lparr>game =
       \<lparr>snake =
          \<lparr>head = \<lparr>row = 2, col = 2\<rparr>,
           tail = [\<lparr>row = 2, col = 1\<rparr>, \<lparr>row = 0, col = 0\<rparr>, \<lparr>row = 0, col = 0\<rparr>,
                   \<lparr>row = 0, col = 0\<rparr>, \<lparr>row = 0, col = 0\<rparr>, \<lparr>row = 0, col = 0\<rparr>,
                   \<lparr>row = 0, col = 0\<rparr>, \<lparr>row = 0, col = 0\<rparr>, \<lparr>row = 0, col = 0\<rparr>,
                   \<lparr>row = 0, col = 0\<rparr>, \<lparr>row = 0, col = 0\<rparr>, \<lparr>row = 0, col = 0\<rparr>,
                   \<lparr>row = 0, col = 0\<rparr>, \<lparr>row = 0, col = 0\<rparr>, \<lparr>row = 0, col = 0\<rparr>,
                   \<lparr>row = 0, col = 0\<rparr>, \<lparr>row = 0, col = 0\<rparr>, \<lparr>row = 0, col = 0\<rparr>,
                   \<lparr>row = 0, col = 0\<rparr>, \<lparr>row = 0, col = 0\<rparr>, \<lparr>row = 0, col = 0\<rparr>,
                   \<lparr>row = 0, col = 0\<rparr>, \<lparr>row = 0, col = 0\<rparr>, \<lparr>row = 0, col = 0\<rparr>],
           tailLength = 1, direction = RIGHT\<rparr>,
        foodCoords = \<lparr>row = 3, col = 2\<rparr>, speed = 1, status = ONGOING, score = 0\<rparr>,
        currentTurn = TURN_NONE\<rparr>"

definition squareState :: Globals where
  "squareState =
     \<lparr>game =
       \<lparr>snake =
          \<lparr>head = \<lparr>row = 3, col = 1\<rparr>,
           tail = [\<lparr>row = 3, col = 2\<rparr>, \<lparr>row = 2, col = 2\<rparr>, \<lparr>row = 2, col = 1\<rparr>,
                   \<lparr>row = 0, col = 0\<rparr>, \<lparr>row = 0, col = 0\<rparr>, \<lparr>row = 0, col = 0\<rparr>,
                   \<lparr>row = 0, col = 0\<rparr>, \<lparr>row = 0, col = 0\<rparr>, \<lparr>row = 0, col = 0\<rparr>,
                   \<lparr>row = 0, col = 0\<rparr>, \<lparr>row = 0, col = 0\<rparr>, \<lparr>row = 0, col = 0\<rparr>,
                   \<lparr>row = 0, col = 0\<rparr>, \<lparr>row = 0, col = 0\<rparr>, \<lparr>row = 0, col = 0\<rparr>,
                   \<lparr>row = 0, col = 0\<rparr>, \<lparr>row = 0, col = 0\<rparr>, \<lparr>row = 0, col = 0\<rparr>,
                   \<lparr>row = 0, col = 0\<rparr>, \<lparr>row = 0, col = 0\<rparr>, \<lparr>row = 0, col = 0\<rparr>,
                   \<lparr>row = 0, col = 0\<rparr>, \<lparr>row = 0, col = 0\<rparr>, \<lparr>row = 0, col = 0\<rparr>],
           tailLength = 3, direction = LEFT\<rparr>,
        foodCoords = \<lparr>row = 0, col = 0\<rparr>, speed = 1, status = ONGOING, score = 2\<rparr>,
        currentTurn = TURN_RIGHT\<rparr>"

definition squareLostState :: Globals where
  "squareLostState =
     \<lparr>game =
       \<lparr>snake =
          \<lparr>head = \<lparr>row = 3, col = 1\<rparr>,
           tail = [\<lparr>row = 3, col = 2\<rparr>, \<lparr>row = 2, col = 2\<rparr>, \<lparr>row = 2, col = 1\<rparr>,
                   \<lparr>row = 0, col = 0\<rparr>, \<lparr>row = 0, col = 0\<rparr>, \<lparr>row = 0, col = 0\<rparr>,
                   \<lparr>row = 0, col = 0\<rparr>, \<lparr>row = 0, col = 0\<rparr>, \<lparr>row = 0, col = 0\<rparr>,
                   \<lparr>row = 0, col = 0\<rparr>, \<lparr>row = 0, col = 0\<rparr>, \<lparr>row = 0, col = 0\<rparr>,
                   \<lparr>row = 0, col = 0\<rparr>, \<lparr>row = 0, col = 0\<rparr>, \<lparr>row = 0, col = 0\<rparr>,
                   \<lparr>row = 0, col = 0\<rparr>, \<lparr>row = 0, col = 0\<rparr>, \<lparr>row = 0, col = 0\<rparr>,
                   \<lparr>row = 0, col = 0\<rparr>, \<lparr>row = 0, col = 0\<rparr>, \<lparr>row = 0, col = 0\<rparr>,
                   \<lparr>row = 0, col = 0\<rparr>, \<lparr>row = 0, col = 0\<rparr>, \<lparr>row = 0, col = 0\<rparr>],
           tailLength = 3, direction = UP\<rparr>,
        foodCoords = \<lparr>row = 0, col = 0\<rparr>, speed = 1, status = LOST, score = 2\<rparr>,
        currentTurn = TURN_NONE\<rparr>"

text \<open>
  From \<open>startState\<close>: button A, then button B, then one step. The snake turns right and
  moves down to (3, 2).
\<close>

definition turnedDownState :: Globals where
  "turnedDownState =
     \<lparr>game =
       \<lparr>snake =
          \<lparr>head = \<lparr>row = 3, col = 2\<rparr>,
           tail = [\<lparr>row = 2, col = 2\<rparr>, \<lparr>row = 0, col = 0\<rparr>, \<lparr>row = 0, col = 0\<rparr>,
                   \<lparr>row = 0, col = 0\<rparr>, \<lparr>row = 0, col = 0\<rparr>, \<lparr>row = 0, col = 0\<rparr>,
                   \<lparr>row = 0, col = 0\<rparr>, \<lparr>row = 0, col = 0\<rparr>, \<lparr>row = 0, col = 0\<rparr>,
                   \<lparr>row = 0, col = 0\<rparr>, \<lparr>row = 0, col = 0\<rparr>, \<lparr>row = 0, col = 0\<rparr>,
                   \<lparr>row = 0, col = 0\<rparr>, \<lparr>row = 0, col = 0\<rparr>, \<lparr>row = 0, col = 0\<rparr>,
                   \<lparr>row = 0, col = 0\<rparr>, \<lparr>row = 0, col = 0\<rparr>, \<lparr>row = 0, col = 0\<rparr>,
                   \<lparr>row = 0, col = 0\<rparr>, \<lparr>row = 0, col = 0\<rparr>, \<lparr>row = 0, col = 0\<rparr>,
                   \<lparr>row = 0, col = 0\<rparr>, \<lparr>row = 0, col = 0\<rparr>, \<lparr>row = 0, col = 0\<rparr>],
           tailLength = 1, direction = DOWN\<rparr>,
        foodCoords = \<lparr>row = 2, col = 3\<rparr>, speed = 1, status = ONGOING, score = 0\<rparr>,
        currentTurn = TURN_NONE\<rparr>"

section \<open>Auxiliary facts\<close>

subsection \<open>Cells and the membership test\<close>

lemma coordsEqual_iff: "coordsEqual a b = (a = b)"
  by (cases a, cases b) (simp add: coordsEqual_def)

lemma word_of_sint: "sint (w :: 8 word) = k \<Longrightarrow> w = of_int k"
proof -
  assume h: "sint w = k"
  have "of_int (sint w) = w" by simp
  then show ?thesis unfolding h by simp
qed

lemma small_word: "0 \<le> sint (w :: 8 word) \<Longrightarrow> sint w < 5 \<Longrightarrow> w = 0 \<or> w = 1 \<or> w = 2 \<or> w = 3 \<or> w = 4"
proof -
  assume a: "0 \<le> sint w" "sint w < 5"
  then consider "sint w = 0" | "sint w = 1" | "sint w = 2" | "sint w = 3" | "sint w = 4" by arith
  then show ?thesis
    by cases (use word_of_sint[of w] in auto)
qed

lemma inGrid_cases: "inGrid c \<Longrightarrow> row c \<in> {0,1,2,3,4} \<and> col c \<in> {0,1,2,3,4}"
  using small_word[of "row c"] small_word[of "col c"] by (auto simp: inGrid_def)

lemma scanTail_eq:
  "\<forall>i\<in>set is. i < length arr \<Longrightarrow> scanTail c arr is = Inr (\<exists>i\<in>set is. arr ! i = c)"
  by (induction "is") (auto simp: coordsEqual_iff)

lemma coordsInSnake_eq:
  assumes "tailLength (snake g) \<le> int (length (tail (snake g)))"
  shows "coordsInSnake c g = Inr (c \<in> set (occupied g))"
proof -
  let ?n = "nat (tailLength (snake g))"
  have le: "?n \<le> length (tail (snake g))" using assms by simp
  have "(\<exists>i\<in>set [0..<?n]. tail (snake g) ! i = c) = (c \<in> set (take ?n (tail (snake g))))"
    using le by (auto simp: in_set_conv_nth)
  moreover have "scanTail c (tail (snake g)) [0..<?n] = Inr (\<exists>i\<in>set [0..<?n]. tail (snake g) ! i = c)"
    by (rule scanTail_eq) (use le in auto)
  ultimately show ?thesis
    by (auto simp: coordsInSnake_def occupied_def coordsEqual_iff)
qed

subsection \<open>The shifting loops of moveSnake\<close>

lemma shiftDown_append:
  "shiftDown arr (xs @ ys) = (case shiftDown arr xs of Inl e \<Rightarrow> Inl e | Inr a \<Rightarrow> shiftDown a ys)"
  by (induction xs arbitrary: arr) auto

lemma shiftDown_eq:
  "m < length arr \<Longrightarrow>
   shiftDown arr [0..<m] = Inr (map (\<lambda>j. if j < m then arr ! (j + 1) else arr ! j) [0..<length arr])"
proof (induction m)
  case 0
  then show ?case by (simp add: map_nth)
next
  case (Suc m)
  let ?A = "map (\<lambda>j. if j < m then arr ! (j + 1) else arr ! j) [0..<length arr]"
  have A: "shiftDown arr [0..<m] = Inr ?A" using Suc by simp
  have upd: "?A[m := ?A ! (m + 1)] = map (\<lambda>j. if j < Suc m then arr ! (j + 1) else arr ! j) [0..<length arr]"
    using Suc.prems by (intro nth_equalityI) (auto simp: nth_list_update)
  have "shiftDown arr [0..<Suc m] = shiftDown ?A [m]"
    using A by (simp add: shiftDown_append)
  also have "\<dots> = Inr (?A[m := ?A ! (m + 1)])" using Suc.prems by simp
  finally show ?case using upd by simp
qed

lemma shiftUp_eq:
  "n < length arr \<Longrightarrow>
   shiftUp arr (rev [1..<n + 1]) = Inr (map (\<lambda>j. if 1 \<le> j \<and> j \<le> n then arr ! (j - 1) else arr ! j) [0..<length arr])"
proof (induction n arbitrary: arr)
  case 0
  have "arr = map (\<lambda>j. if 1 \<le> j \<and> j \<le> 0 then arr ! (j - 1) else arr ! j) [0..<length arr]"
    by (intro nth_equalityI) auto
  then show ?case by simp
next
  case (Suc n)
  let ?B = "arr[Suc n := arr ! n]"
  have "shiftUp arr (rev [1..<Suc n + 1]) = shiftUp ?B (rev [1..<n + 1])"
    using Suc.prems by simp
  also have "\<dots> = Inr (map (\<lambda>j. if 1 \<le> j \<and> j \<le> n then ?B ! (j - 1) else ?B ! j) [0..<length ?B])"
    using Suc.prems by (intro Suc.IH) simp
  also have "map (\<lambda>j. if 1 \<le> j \<and> j \<le> n then ?B ! (j - 1) else ?B ! j) [0..<length ?B]
      = map (\<lambda>j. if 1 \<le> j \<and> j \<le> Suc n then arr ! (j - 1) else arr ! j) [0..<length arr]"
    using Suc.prems by (intro nth_equalityI) (auto simp: nth_list_update)
  finally show ?case .
qed

lemma moveSnake_extend:
  assumes "0 \<le> tailLength (snake g)" "tailLength (snake g) < int (length (tail (snake g)))"
  shows "\<exists>g2. moveSnake c True g = Inr g2
          \<and> head (snake g2) = c
          \<and> tailLength (snake g2) = tailLength (snake g) + 1
          \<and> direction (snake g2) = direction (snake g)
          \<and> length (tail (snake g2)) = length (tail (snake g))
          \<and> take (nat (tailLength (snake g)) + 1) (tail (snake g2))
              = head (snake g) # take (nat (tailLength (snake g))) (tail (snake g))
          \<and> set (tail (snake g2)) \<subseteq> insert (head (snake g)) (set (tail (snake g)))
          \<and> foodCoords g2 = foodCoords g \<and> speed g2 = speed g
          \<and> status g2 = status g \<and> score g2 = score g"
proof -
  let ?t = "tail (snake g)" and ?n = "nat (tailLength (snake g))" and ?h = "head (snake g)"
  let ?A = "map (\<lambda>j. if 1 \<le> j \<and> j \<le> ?n then ?t ! (j - 1) else ?t ! j) [0..<length ?t]"
  let ?g2 = "g\<lparr>snake := (snake g)\<lparr>tail := ?A[0 := ?h], tailLength := tailLength (snake g) + 1, head := c\<rparr>\<rparr>"
  have n: "?n < length ?t" using assms by simp
  have up: "shiftUp ?t (rev [1..<?n + 1]) = Inr ?A" using n by (rule shiftUp_eq)
  have run: "moveSnake c True g = Inr ?g2"
    using up by (simp add: moveSnake_def Let_def)
  have pos: "0 < length ?t" using n by (cases "tail (snake g)") auto
  have tk: "take (?n + 1) (?A[0 := ?h]) = ?h # take ?n ?t"
    using n pos by (intro nth_equalityI) (auto simp: nth_list_update nth_Cons')
  have "set ?A \<subseteq> set ?t"
  proof
    fix x assume "x \<in> set ?A"
    then obtain j where "j < length ?t"
        "x = (if 1 \<le> j \<and> j \<le> ?n then ?t ! (j - 1) else ?t ! j)"
      by auto
    then show "x \<in> set ?t" by (simp add: less_imp_diff_less)
  qed
  then have sub: "set (?A[0 := ?h]) \<subseteq> insert ?h (set ?t)"
    using set_update_subset_insert[of ?A 0 ?h] by blast
  show ?thesis
    by (rule exI[of _ ?g2]) (use run tk sub in simp)
qed

lemma moveSnake_plain:
  assumes "1 \<le> tailLength (snake g)" "tailLength (snake g) \<le> int (length (tail (snake g)))"
  shows "\<exists>g2. moveSnake c False g = Inr g2
          \<and> head (snake g2) = c
          \<and> tailLength (snake g2) = tailLength (snake g)
          \<and> direction (snake g2) = direction (snake g)
          \<and> length (tail (snake g2)) = length (tail (snake g))
          \<and> take (nat (tailLength (snake g))) (tail (snake g2))
              = drop 1 (take (nat (tailLength (snake g))) (tail (snake g))) @ [head (snake g)]
          \<and> set (tail (snake g2)) \<subseteq> insert (head (snake g)) (set (tail (snake g)))
          \<and> foodCoords g2 = foodCoords g \<and> speed g2 = speed g
          \<and> status g2 = status g \<and> score g2 = score g"
proof -
  let ?t = "tail (snake g)" and ?m = "nat (tailLength (snake g) - 1)" and ?h = "head (snake g)"
  let ?A = "map (\<lambda>j. if j < ?m then ?t ! (j + 1) else ?t ! j) [0..<length ?t]"
  let ?g2 = "g\<lparr>snake := (snake g)\<lparr>tail := ?A[?m := ?h], head := c\<rparr>\<rparr>"
  have m: "?m < length ?t" and nm: "nat (tailLength (snake g)) = ?m + 1" using assms by auto
  have down: "shiftDown ?t [0..<?m] = Inr ?A" using m by (rule shiftDown_eq)
  have run: "moveSnake c False g = Inr ?g2"
    using down m assms by (simp add: moveSnake_def Let_def)
  have tk: "take (?m + 1) (?A[?m := ?h]) = drop 1 (take (?m + 1) ?t) @ [?h]"
    using m by (intro nth_equalityI) (auto simp: nth_list_update nth_append)
  have "set ?A \<subseteq> set ?t"
  proof
    fix x assume "x \<in> set ?A"
    then obtain j where "j < length ?t"
        "x = (if j < ?m then ?t ! (j + 1) else ?t ! j)"
      by auto
    then show "x \<in> set ?t" using m by simp
  qed
  then have sub: "set (?A[?m := ?h]) \<subseteq> insert ?h (set ?t)"
    using set_update_subset_insert[of ?A ?m ?h] by blast
  show ?thesis
    unfolding nm by (rule exI[of _ ?g2]) (use run tk sub in simp)
qed

subsection \<open>The sampler and the candidate stay on the grid\<close>

lemma sint_of_nat_mod5: "sint (of_nat (r mod 5) :: 8 word) = int (r mod 5)"
proof -
  have "r mod 5 < 5" by simp
  then consider "r mod 5 = 0" | "r mod 5 = 1" | "r mod 5 = 2" | "r mod 5 = 3" | "r mod 5 = 4"
    by linarith
  then show ?thesis by cases simp_all
qed

lemma inGrid_random: "inGrid \<lparr>row = of_nat (r1 mod 5), col = of_nat (r2 mod 5)\<rparr>"
  by (simp add: inGrid_def sint_of_nat_mod5)

lemma getRandomCoords_free:
  "tailLength (snake g) \<le> int (length (tail (snake g))) \<Longrightarrow>
   getRandomCoords rs g = Inr (c, rs') \<Longrightarrow> c \<notin> set (occupied g) \<and> inGrid c"
proof (induction rs g rule: getRandomCoords.induct)
  case (1 r1 r2 rs g)
  let ?c = "\<lparr>row = of_nat (r1 mod 5), col = of_nat (r2 mod 5)\<rparr> :: Coords"
  have cs: "coordsInSnake ?c g = Inr (?c \<in> set (occupied g))"
    using "1.prems"(1) by (rule coordsInSnake_eq)
  show ?case
    using 1 cs by (auto simp: Let_def inGrid_random split: if_splits)
qed simp_all

lemma getNextMove_inGrid:
  assumes "inGrid (head (snake g))"
  shows "inGrid (getNextMove g)"
proof -
  obtain r c where h: "head (snake g) = \<lparr>row = r, col = c\<rparr>"
    by (cases "head (snake g)") auto
  have rc: "r \<in> {0,1,2,3,4}" "c \<in> {0,1,2,3,4}"
    using inGrid_cases[OF assms] h by auto
  show ?thesis
    using rc by (cases "direction (snake g)")
      (auto simp: getNextMove_def h isOutOfBounds_def wraparound_def inGrid_def Let_def)
qed

subsection \<open>One step, by outcome\<close>

lemma turned_simps:
  "head (snake (turned w)) = head (snake (game w))"
  "tail (snake (turned w)) = tail (snake (game w))"
  "tailLength (snake (turned w)) = tailLength (snake (game w))"
  "direction (snake (turned w)) = turnDirection (currentTurn w) (direction (snake (game w)))"
  "foodCoords (turned w) = foodCoords (game w)"
  "speed (turned w) = speed (game w)"
  "status (turned w) = status (game w)"
  "score (turned w) = score (game w)"
  "occupied (turned w) = occupied (game w)"
  by (simp_all add: turned_def turnSnake_def occupied_def)

lemma getStepOutcome_eq:
  assumes "tailLength (snake g) \<le> int (length (tail (snake g)))"
  shows "getStepOutcome g =
     Inr (if getNextMove g \<in> set (occupied g) \<and> getNextMove g \<noteq> tail (snake g) ! 0 then COLLISION
          else if getNextMove g = foodCoords g
          then (if MAX_SNAKE_LENGTH - 1 \<le> tailLength (snake g) then FULL else EAT)
          else MOVE)"
  using assms by (auto simp: getStepOutcome_def coordsInSnake_eq coordsEqual_iff Let_def)

lemma outcome_turned:
  assumes "tailLength (snake (game w)) \<le> int (length (tail (snake (game w))))"
  shows "getStepOutcome (turned w) =
     Inr (if candidate w \<in> set (occupied (game w)) \<and> candidate w \<noteq> tail (snake (game w)) ! 0
          then COLLISION
          else if candidate w = foodCoords (game w)
          then (if MAX_SNAKE_LENGTH - 1 \<le> tailLength (snake (game w)) then FULL else EAT)
          else MOVE)"
  unfolding candidate_def
  using getStepOutcome_eq[of "turned w"] assms by (simp only: turned_simps)

lemma stepGame_unfold:
  "stepGame rs w =
     (case getStepOutcome (turned w) of
        Inl e \<Rightarrow> Inl e
      | Inr outcome \<Rightarrow>
          (case handleStepOutcome rs outcome (turned w) of
             Inl e \<Rightarrow> Inl e
           | Inr (g2, rs') \<Rightarrow> Inr (\<lparr>game = g2, currentTurn = TURN_NONE\<rparr>, rs')))"
  unfolding stepGame_def turned_def Let_def by (rule refl)

lemma stepGame_collision:
  assumes "getStepOutcome (turned w) = Inr COLLISION"
  shows "stepGame rs w = Inr (\<lparr>game = (turned w)\<lparr>status := LOST\<rparr>, currentTurn = TURN_NONE\<rparr>, rs)"
  using assms by (simp add: stepGame_unfold handleStepOutcome_def)

lemma stepGame_full:
  assumes "getStepOutcome (turned w) = Inr FULL"
      and "moveSnake (candidate w) True (turned w) = Inr g2"
  shows "stepGame rs w = Inr (\<lparr>game = g2\<lparr>status := WON\<rparr>, currentTurn = TURN_NONE\<rparr>, rs)"
  using assms by (simp add: stepGame_unfold handleStepOutcome_def candidate_def)

lemma stepGame_eat:
  assumes "getStepOutcome (turned w) = Inr EAT"
      and "moveSnake (candidate w) True (turned w) = Inr g2"
  shows "stepGame rs w =
           (case getRandomCoords rs g2 of
              Inl e \<Rightarrow> Inl e
            | Inr (f, rs') \<Rightarrow>
                Inr (\<lparr>game = (if uint (score g2 + 1) mod 5 = 0
                              then g2\<lparr>foodCoords := f, score := score g2 + 1, speed := speed g2 + 1\<rparr>
                              else g2\<lparr>foodCoords := f, score := score g2 + 1\<rparr>),
                      currentTurn = TURN_NONE\<rparr>, rs'))"
  using assms
  by (simp add: stepGame_unfold handleStepOutcome_def placeFood_def candidate_def Let_def
        split: sum.splits prod.splits)

lemma stepGame_eat_result:
  assumes "getStepOutcome (turned w) = Inr EAT"
      and "moveSnake (candidate w) True (turned w) = Inr g2"
      and "stepGame rs w = Inr (w', rs')"
  shows "\<exists>f. getRandomCoords rs g2 = Inr (f, rs')
          \<and> snake (game w') = snake g2 \<and> foodCoords (game w') = f
          \<and> score (game w') = score g2 + 1
          \<and> speed (game w') = (if uint (score g2 + 1) mod 5 = 0 then speed g2 + 1 else speed g2)
          \<and> status (game w') = status g2 \<and> currentTurn w' = TURN_NONE"
  using stepGame_eat[OF assms(1,2), of rs] assms(3)
  by (auto split: sum.splits)

lemma stepGame_move:
  assumes "getStepOutcome (turned w) = Inr MOVE"
      and "moveSnake (candidate w) False (turned w) = Inr g2"
  shows "stepGame rs w = Inr (\<lparr>game = g2, currentTurn = TURN_NONE\<rparr>, rs)"
  using assms by (simp add: stepGame_unfold handleStepOutcome_def candidate_def)

subsection \<open>The invariant is preserved\<close>

lemma distinct_plain_move:
  assumes "distinct (h # xs)" "xs \<noteq> []" "c \<notin> set (h # xs) \<or> c = hd xs"
  shows "distinct (c # drop 1 xs @ [h])"
  using assms by (cases xs) auto

lemma hd_take_tail:
  assumes "1 \<le> n" "length xs = 24"
  shows "take (nat n) xs \<noteq> []" "hd (take (nat n) xs) = xs ! 0"
proof -
  obtain x xs' where xs: "xs = x # xs'" using assms(2) by (cases xs) auto
  obtain k where k: "nat n = Suc k" using assms(1) by (cases "nat n") auto
  show "take (nat n) xs \<noteq> []" "hd (take (nat n) xs) = xs ! 0"
    by (simp_all add: xs k)
qed

lemma uint_succ: "uint (x :: 8 word) < 255 \<Longrightarrow> uint (x + 1) = uint x + 1"
  using uint_add_lem[of x 1] by simp

lemma div5_step:
  fixes k :: int
  shows "(k + 1) div 5 = (if (k + 1) mod 5 = 0 then k div 5 + 1 else k div 5)"
proof -
  define q r where "q = k div 5" and "r = k mod 5"
  have k: "k + 1 = 5 * q + (r + 1)" and r: "0 \<le> r" "r < 5"
    by (simp_all add: q_def r_def)
  have d: "(k + 1) div 5 = q + (r + 1) div 5" and m: "(k + 1) mod 5 = (r + 1) mod 5"
    unfolding k by simp_all
  consider "r = 4" | "0 \<le> r + 1 \<and> r + 1 < 5" using r by linarith
  then show ?thesis
  proof cases
    case 1
    then show ?thesis unfolding d m by (simp add: q_def)
  next
    case 2
    then have "(r + 1) div 5 = 0" "(r + 1) mod 5 = r + 1" by simp_all
    then show ?thesis unfolding d m using r by (simp add: q_def)
  qed
qed

lemma speed_update:
  fixes sc sp :: "8 word"
  assumes "uint sp = 1 + uint sc div 5" "uint sc \<le> 22"
  shows "uint (if uint (sc + 1) mod 5 = 0 then sp + 1 else sp) = 1 + uint (sc + 1) div 5"
proof -
  have a: "uint (sc + 1) = uint sc + 1" using assms(2) by (intro uint_succ) simp
  have "uint sc div 5 \<le> 22 div 5" using assms(2) by (intro zdiv_mono1) simp_all
  then have "uint sp < 255" using assms(1) by simp
  then have b: "uint (sp + 1) = uint sp + 1" by (rule uint_succ)
  show ?thesis
    unfolding a div5_step[of "uint sc"] using assms(1) by (simp add: b)
qed

lemma gameInvI:
  assumes "length (tail (snake g)) = 24"
      and "1 \<le> tailLength (snake g)" "tailLength (snake g) \<le> MAX_SNAKE_LENGTH"
      and "inGrid (head (snake g))" "\<forall>c \<in> set (tail (snake g)). inGrid c"
      and "inGrid (foodCoords g)" "uint (score g) \<le> 22"
      and "uint (speed g) = 1 + uint (score g) div 5"
      and "status g \<noteq> WON \<Longrightarrow> tailLength (snake g) \<le> MAX_SNAKE_LENGTH - 1"
      and "status g \<noteq> WON \<Longrightarrow> distinct (occupied g)"
      and "status g \<noteq> WON \<Longrightarrow> foodCoords g \<notin> set (occupied g)"
      and "status g \<noteq> WON \<Longrightarrow> uint (score g) = tailLength (snake g) - 1"
  shows "gameInv g"
  using assms unfolding gameInv_def by blast

lemma gameInv_step:
  assumes inv: "gameInv (game w)" and on: "status (game w) = ONGOING"
      and st: "stepGame rs w = Inr (w', rs')"
  shows "gameInv (game w')"
proof -
  let ?g = "game w" and ?n = "tailLength (snake (game w))" and ?c = "candidate w"
  let ?t = "tail (snake (game w))" and ?h = "head (snake (game w))"
  have len: "length ?t = 24" and n1: "1 \<le> ?n" and n23: "?n \<le> 23"
    and hg: "inGrid ?h" and tg: "\<forall>c \<in> set ?t. inGrid c" and fg: "inGrid (foodCoords ?g)"
    and dist: "distinct (occupied ?g)" and food: "foodCoords ?g \<notin> set (occupied ?g)"
    and sc: "uint (score ?g) = ?n - 1" and sp: "uint (speed ?g) = 1 + uint (score ?g) div 5"
    using inv on by (auto simp: gameInv_def)
  have sc22: "uint (score ?g) \<le> 22" using sc n23 by simp
  have cg: "inGrid ?c"
    unfolding candidate_def using hg by (intro getNextMove_inGrid) (simp add: turned_simps)
  have occ: "occupied ?g = ?h # take (nat ?n) ?t" by (simp add: occupied_def)
  have out: "getStepOutcome (turned w) =
     Inr (if ?c \<in> set (occupied ?g) \<and> ?c \<noteq> ?t ! 0 then COLLISION
          else if ?c = foodCoords ?g then (if MAX_SNAKE_LENGTH - 1 \<le> ?n then FULL else EAT)
          else MOVE)"
    using len n23 by (intro outcome_turned) simp
  have b0: "0 \<le> tailLength (snake (turned w))"
    and b1: "1 \<le> tailLength (snake (turned w))"
    and b2: "tailLength (snake (turned w)) < int (length (tail (snake (turned w))))"
    and b3: "tailLength (snake (turned w)) \<le> int (length (tail (snake (turned w))))"
    using len n1 n23 by (simp_all add: turned_simps)
  consider (collision) "?c \<in> set (occupied ?g) \<and> ?c \<noteq> ?t ! 0"
    | (full) "\<not> (?c \<in> set (occupied ?g) \<and> ?c \<noteq> ?t ! 0)" "?c = foodCoords ?g" "23 \<le> ?n"
    | (eat) "\<not> (?c \<in> set (occupied ?g) \<and> ?c \<noteq> ?t ! 0)" "?c = foodCoords ?g" "\<not> 23 \<le> ?n"
    | (move) "\<not> (?c \<in> set (occupied ?g) \<and> ?c \<noteq> ?t ! 0)" "?c \<noteq> foodCoords ?g"
    by blast
  then show ?thesis
  proof cases
    case collision
    then have "getStepOutcome (turned w) = Inr COLLISION" using out by simp
    then have "w' = \<lparr>game = (turned w)\<lparr>status := LOST\<rparr>, currentTurn = TURN_NONE\<rparr>"
      using stepGame_collision[of w rs] st by simp
    then show ?thesis
      using inv on by (simp add: gameInv_def turned_simps occupied_def)
  next
    case full
    have o: "getStepOutcome (turned w) = Inr FULL" using out full by simp
    obtain g2 where g2: "moveSnake ?c True (turned w) = Inr g2"
      and h2: "head (snake g2) = ?c" and n2: "tailLength (snake g2) = ?n + 1"
      and l2: "length (tail (snake g2)) = length ?t"
      and s2: "set (tail (snake g2)) \<subseteq> insert ?h (set ?t)"
      and f2: "foodCoords g2 = foodCoords ?g" and sc2: "score g2 = score ?g"
      and sp2: "speed g2 = speed ?g"
      using moveSnake_extend[OF b0 b2, of ?c] by (auto simp: turned_simps)
    have w': "game w' = g2\<lparr>status := WON\<rparr>"
      using stepGame_full[OF o g2, of rs] st by simp
    have tg2: "\<forall>c \<in> set (tail (snake g2)). inGrid c" using s2 hg tg by blast
    show ?thesis
      unfolding w'
      using n1 n23 by (intro gameInvI) (simp_all add: h2 n2 l2 f2 sc2 sp2 len cg fg sc22 sp tg2)
  next
    case eat
    have o: "getStepOutcome (turned w) = Inr EAT" using out eat by simp
    obtain g2 where g2: "moveSnake ?c True (turned w) = Inr g2"
      and h2: "head (snake g2) = ?c" and n2: "tailLength (snake g2) = ?n + 1"
      and l2: "length (tail (snake g2)) = length ?t"
      and t2: "take (nat ?n + 1) (tail (snake g2)) = ?h # take (nat ?n) ?t"
      and s2: "set (tail (snake g2)) \<subseteq> insert ?h (set ?t)"
      and sc2: "score g2 = score ?g" and st2: "status g2 = status ?g"
      and sp2: "speed g2 = speed ?g"
      using moveSnake_extend[OF b0 b2, of ?c] by (auto simp: turned_simps)
    obtain f where f: "getRandomCoords rs g2 = Inr (f, rs')"
      and ws: "snake (game w') = snake g2" and wf: "foodCoords (game w') = f"
      and wsc: "score (game w') = score g2 + 1"
      and wsp: "speed (game w') = (if uint (score g2 + 1) mod 5 = 0 then speed g2 + 1 else speed g2)"
      and wst: "status (game w') = status g2"
      using stepGame_eat_result[OF o g2 st] by blast
    have nn: "nat (?n + 1) = nat ?n + 1" using n1 by simp
    have occ2: "occupied g2 = ?c # ?h # take (nat ?n) ?t"
      using h2 n2 t2 by (simp add: occupied_def nn)
    have ffree: "f \<notin> set (occupied g2)" "inGrid f"
      using getRandomCoords_free[of g2 rs f rs'] f n2 l2 len n23 by auto
    have cnew: "?c \<notin> set (occupied ?g)" using eat(2) food by simp
    have occ3: "occupied (game w') = occupied g2"
      by (simp add: occupied_def ws)
    have sc': "uint (score (game w')) = uint (score ?g) + 1"
      unfolding wsc sc2 using sc22 by (intro uint_succ) simp
    have sp': "uint (speed (game w')) = 1 + uint (score (game w')) div 5"
      unfolding wsc wsp sc2 sp2 using sp sc22 by (rule speed_update)
    have tg2: "\<forall>c \<in> set (tail (snake g2)). inGrid c" using s2 hg tg by blast
    have d2: "distinct (occupied g2)" unfolding occ2 using dist cnew occ by simp
    show ?thesis
    proof (rule gameInvI)
      show "uint (score (game w')) \<le> 22" using sc' sc eat(3) by simp
      show "uint (speed (game w')) = 1 + uint (score (game w')) div 5" by (rule sp')
      show "foodCoords (game w') \<notin> set (occupied (game w'))" using ffree(1) by (simp add: occ3 wf)
      show "distinct (occupied (game w'))" using d2 by (simp add: occ3)
      show "uint (score (game w')) = tailLength (snake (game w')) - 1"
        using sc' sc by (simp add: ws n2)
    qed (use eat(3) n1 in \<open>simp_all add: ws wf h2 n2 l2 len cg ffree(2) tg2\<close>)
  next
    case move
    have o: "getStepOutcome (turned w) = Inr MOVE" using out move by auto
    obtain g2 where g2: "moveSnake ?c False (turned w) = Inr g2"
      and h2: "head (snake g2) = ?c" and n2: "tailLength (snake g2) = ?n"
      and l2: "length (tail (snake g2)) = length ?t"
      and t2: "take (nat ?n) (tail (snake g2)) = drop 1 (take (nat ?n) ?t) @ [?h]"
      and s2: "set (tail (snake g2)) \<subseteq> insert ?h (set ?t)"
      and f2: "foodCoords g2 = foodCoords ?g"
      and sc2: "score g2 = score ?g" and st2: "status g2 = status ?g"
      and sp2: "speed g2 = speed ?g"
      using moveSnake_plain[OF b1 b3, of ?c] by (auto simp: turned_simps)
    have w': "game w' = g2"
      using stepGame_move[OF o g2, of rs] st by simp
    have ne: "take (nat ?n) ?t \<noteq> []" and hd0: "hd (take (nat ?n) ?t) = ?t ! 0"
      using hd_take_tail[OF n1 len] by auto
    have d2: "distinct (?c # drop 1 (take (nat ?n) ?t) @ [?h])"
      using dist ne move(1) unfolding occ hd0[symmetric]
      by (intro distinct_plain_move) auto
    have fd2: "foodCoords ?g \<notin> set (?c # drop 1 (take (nat ?n) ?t) @ [?h])"
      using food move(2) unfolding occ by (auto dest: in_set_dropD)
    have occ2: "occupied g2 = ?c # drop 1 (take (nat ?n) ?t) @ [?h]"
      using h2 n2 t2 by (simp add: occupied_def)
    have tg2: "\<forall>c \<in> set (tail (snake g2)). inGrid c" using s2 hg tg by blast
    show ?thesis
      unfolding w'
    proof (rule gameInvI)
      show "distinct (occupied g2)" unfolding occ2 by (rule d2)
      show "foodCoords g2 \<notin> set (occupied g2)" unfolding occ2 f2 by (rule fd2)
    qed (use n1 n23 in \<open>simp_all add: h2 n2 l2 f2 sc2 sp2 len cg fg sc22 sp sc tg2\<close>)
  qed
qed

lemma gameInv_init:
  assumes "length (tail (snake g)) = 24" "\<forall>c \<in> set (tail (snake g)). inGrid c"
      and "initGame rs g = Inr (g', rs')"
  shows "gameInv g' \<and> status g' = ONGOING \<and> score g' = 0 \<and> speed g' = 1
         \<and> tailLength (snake g') = 1"
proof -
  let ?g1 = "g\<lparr>snake := (snake g)\<lparr>head := \<lparr>row = 2, col = 2\<rparr>,
                 tail := (tail (snake g))[0 := \<lparr>row = 2, col = 1\<rparr>],
                 tailLength := 1, direction := RIGHT\<rparr>,
               speed := 1, status := ONGOING, score := 0\<rparr>"
  obtain t ts where t: "tail (snake g) = t # ts" using assms(1) by (cases "tail (snake g)") auto
  obtain f where f: "getRandomCoords rs ?g1 = Inr (f, rs')" and g': "g' = ?g1\<lparr>foodCoords := f\<rparr>"
    using assms(3) by (auto simp: initGame_def placeFood_def Let_def split: sum.splits)
  have occ: "occupied ?g1 = [\<lparr>row = 2, col = 2\<rparr>, \<lparr>row = 2, col = 1\<rparr>]"
    by (simp add: occupied_def t)
  have ffree: "f \<notin> set (occupied ?g1) \<and> inGrid f"
    using f assms(1) by (intro getRandomCoords_free[of ?g1 rs f rs']) auto
  have grid: "\<forall>c \<in> set ((tail (snake g))[0 := \<lparr>row = 2, col = 1\<rparr>]). inGrid c"
    using assms(2) set_update_subset_insert[of "tail (snake g)" 0 "\<lparr>row = 2, col = 1\<rparr>"]
    by (auto simp: inGrid_def)
  show ?thesis
    unfolding g' using ffree grid assms(1) occ
    by (simp add: gameInv_def occupied_def inGrid_def t)
qed

lemma reachable_inv: "reachable w \<Longrightarrow> gameInv (game w)"
proof (induction rule: reachable.induct)
  case (start rs g rs')
  then show ?case
    using gameInv_init[of zeroGame rs g rs'] by (simp add: zeroGame_def inGrid_def)
next
  case (buttonA w)
  then show ?case by (simp add: handleButtonA_def)
next
  case (buttonB w)
  then show ?case by (simp add: handleButtonB_def)
next
  case (step w rs w' rs')
  then show ?case using gameInv_step by blast
next
  case (reset w rs w' rs')
  then obtain g where "initGame rs (game w) = Inr (g, rs')" "game w' = g"
    by (auto simp: resetGame_def split: sum.splits)
  then show ?case
    using gameInv_init[of "game w" rs g rs'] reset.IH by (simp add: gameInv_def)
qed

subsection \<open>Runs of the game loop\<close>

lemma press_reachable: "reachable w \<Longrightarrow> reachable (press t w)"
  by (cases t) (auto intro: reachable.intros)

lemma press_status: "status (game (press t w)) = status (game w)"
  by (cases t) (auto simp: handleButtonA_def handleButtonB_def)

lemma gameLoop_reachable:
  "reachable w \<Longrightarrow> gameLoop inputs w = Inr w' \<Longrightarrow> reachable w'"
proof (induction inputs w rule: gameLoop.induct)
  case (1 w)
  then show ?case by simp
next
  case (2 t rs rest w)
  show ?case
  proof (cases "status (game w) = ONGOING")
    case True
    then obtain w1 rs1 where s: "stepGame rs (press t w) = Inr (w1, rs1)"
      and l: "gameLoop rest w1 = Inr w'"
      using "2.prems"(2) by (auto split: sum.splits)
    have "reachable w1"
      using reachable.step[OF press_reachable[OF "2.prems"(1)] _ s] True
      by (simp add: press_status)
    then show ?thesis using "2.IH"[OF True s refl _ l] by simp
  next
    case False
    then show ?thesis using 2 by simp
  qed
qed

lemma reachable_startState: "reachable startState"
proof -
  have "initGame [2, 3] zeroGame = Inr (game startState, [])" by code_simp
  then have "reachable \<lparr>game = game startState, currentTurn = TURN_NONE\<rparr>"
    by (rule reachable.start)
  then show ?thesis by (simp add: startState_def)
qed

lemma reachable_squareStart: "reachable squareStart"
proof -
  have "initGame [3, 2] zeroGame = Inr (game squareStart, [])" by code_simp
  then have "reachable \<lparr>game = game squareStart, currentTurn = TURN_NONE\<rparr>"
    by (rule reachable.start)
  then show ?thesis by (simp add: squareStart_def)
qed

lemma run_length22: "gameLoop (take 21 fillScript) startState = Inr length22State"
  by code_simp

lemma run_length23: "gameLoop (take 22 fillScript) startState = Inr length23State"
  by code_simp

lemma run_won: "gameLoop fillScript startState = Inr wonState"
  by code_simp

lemma run_fed: "gameLoop [(TURN_NONE, [0, 0])] startState = Inr fedState"
  by code_simp

lemma run_square: "gameLoop [(TURN_RIGHT, [3, 1]), (TURN_RIGHT, [0, 0])] squareStart = Inr (squareState\<lparr>currentTurn := TURN_NONE\<rparr>)"
  by code_simp

lemma reachable_length22: "reachable length22State"
  using gameLoop_reachable[OF reachable_startState run_length22] .

lemma reachable_length23: "reachable length23State"
  using gameLoop_reachable[OF reachable_startState run_length23] .

lemma reachable_won: "reachable wonState"
  using gameLoop_reachable[OF reachable_startState run_won] .

lemma reachable_fed: "reachable fedState"
  using gameLoop_reachable[OF reachable_startState run_fed] .

lemma reachable_square: "reachable squareState"
proof -
  have "reachable (squareState\<lparr>currentTurn := TURN_NONE\<rparr>)"
    using gameLoop_reachable[OF reachable_squareStart run_square] .
  then have "reachable (handleButtonB (squareState\<lparr>currentTurn := TURN_NONE\<rparr>))"
    by (rule reachable.buttonB)
  moreover have "handleButtonB (squareState\<lparr>currentTurn := TURN_NONE\<rparr>) = squareState"
    by (simp add: handleButtonB_def squareState_def)
  ultimately show ?thesis by simp
qed

subsection \<open>Steps from reachable states\<close>

lemma reachable_facts:
  assumes "reachable w"
  shows "length (tail (snake (game w))) = 24"
    and "1 \<le> tailLength (snake (game w))"
    and "tailLength (snake (game w)) \<le> MAX_SNAKE_LENGTH"
    and "inGrid (head (snake (game w)))"
    and "\<forall>c \<in> set (tail (snake (game w))). inGrid c"
    and "inGrid (foodCoords (game w))"
    and "uint (score (game w)) \<le> 22"
    and "uint (speed (game w)) = 1 + uint (score (game w)) div 5"
  using reachable_inv[OF assms] by (simp_all add: gameInv_def)

lemma ongoing_facts:
  assumes "reachable w" "status (game w) = ONGOING"
  shows "tailLength (snake (game w)) \<le> MAX_SNAKE_LENGTH - 1"
    and "distinct (occupied (game w))"
    and "foodCoords (game w) \<notin> set (occupied (game w))"
    and "uint (score (game w)) = tailLength (snake (game w)) - 1"
  using reachable_inv[OF assms(1)] assms(2) by (simp_all add: gameInv_def)

lemma ongoing_outcome:
  assumes "reachable w" "status (game w) = ONGOING"
  shows "getStepOutcome (turned w) =
     Inr (if candidate w \<in> set (occupied (game w)) \<and> candidate w \<noteq> tail (snake (game w)) ! 0
          then COLLISION
          else if candidate w = foodCoords (game w)
          then (if MAX_SNAKE_LENGTH - 1 \<le> tailLength (snake (game w)) then FULL else EAT)
          else MOVE)"
  using reachable_facts(1,3)[OF assms(1)] by (intro outcome_turned) simp

lemma ongoing_extend:
  assumes "reachable w" "status (game w) = ONGOING"
  shows "\<exists>g2. moveSnake (candidate w) True (turned w) = Inr g2
          \<and> head (snake g2) = candidate w
          \<and> tailLength (snake g2) = tailLength (snake (game w)) + 1
          \<and> length (tail (snake g2)) = 24
          \<and> occupied g2 = candidate w # occupied (game w)
          \<and> foodCoords g2 = foodCoords (game w) \<and> speed g2 = speed (game w)
          \<and> status g2 = ONGOING \<and> score g2 = score (game w)"
proof -
  let ?n = "tailLength (snake (game w))"
  have len: "length (tail (snake (game w))) = 24" and n1: "1 \<le> ?n"
    using reachable_facts[OF assms(1)] by simp_all
  have n23: "?n \<le> 23" using ongoing_facts(1)[OF assms] by simp
  have b0: "0 \<le> tailLength (snake (turned w))"
    and b2: "tailLength (snake (turned w)) < int (length (tail (snake (turned w))))"
    using len n1 n23 by (simp_all add: turned_simps)
  obtain g2 where g2: "moveSnake (candidate w) True (turned w) = Inr g2"
    and h2: "head (snake g2) = candidate w" and n2: "tailLength (snake g2) = ?n + 1"
    and l2: "length (tail (snake g2)) = length (tail (snake (game w)))"
    and t2: "take (nat ?n + 1) (tail (snake g2))
              = head (snake (game w)) # take (nat ?n) (tail (snake (game w)))"
    and r2: "foodCoords g2 = foodCoords (game w)" "speed g2 = speed (game w)"
      "status g2 = status (game w)" "score g2 = score (game w)"
    using moveSnake_extend[OF b0 b2, of "candidate w"] by (auto simp: turned_simps)
  have nn: "nat (?n + 1) = nat ?n + 1" using n1 by simp
  have "occupied g2 = candidate w # occupied (game w)"
    using h2 n2 t2 by (simp add: occupied_def nn)
  then show ?thesis using g2 h2 n2 l2 r2 len assms(2) by simp
qed

lemma ongoing_plain:
  assumes "reachable w" "status (game w) = ONGOING"
  shows "\<exists>g2. moveSnake (candidate w) False (turned w) = Inr g2
          \<and> head (snake g2) = candidate w
          \<and> tailLength (snake g2) = tailLength (snake (game w))
          \<and> length (tail (snake g2)) = 24
          \<and> occupied g2 = candidate w #
               drop 1 (take (nat (tailLength (snake (game w)))) (tail (snake (game w))))
               @ [head (snake (game w))]
          \<and> foodCoords g2 = foodCoords (game w) \<and> speed g2 = speed (game w)
          \<and> status g2 = ONGOING \<and> score g2 = score (game w)"
proof -
  let ?n = "tailLength (snake (game w))"
  have len: "length (tail (snake (game w))) = 24" and n1: "1 \<le> ?n" and n24: "?n \<le> 24"
    using reachable_facts[OF assms(1)] by simp_all
  have b1: "1 \<le> tailLength (snake (turned w))"
    and b3: "tailLength (snake (turned w)) \<le> int (length (tail (snake (turned w))))"
    using len n1 n24 by (simp_all add: turned_simps)
  obtain g2 where g2: "moveSnake (candidate w) False (turned w) = Inr g2"
    and h2: "head (snake g2) = candidate w" and n2: "tailLength (snake g2) = ?n"
    and l2: "length (tail (snake g2)) = length (tail (snake (game w)))"
    and t2: "take (nat ?n) (tail (snake g2))
              = drop 1 (take (nat ?n) (tail (snake (game w)))) @ [head (snake (game w))]"
    and r2: "foodCoords g2 = foodCoords (game w)" "speed g2 = speed (game w)"
      "status g2 = status (game w)" "score g2 = score (game w)"
    using moveSnake_plain[OF b1 b3, of "candidate w"] by (auto simp: turned_simps)
  have "occupied g2 = candidate w # drop 1 (take (nat ?n) (tail (snake (game w))))
          @ [head (snake (game w))]"
    using h2 n2 t2 by (simp add: occupied_def)
  then show ?thesis using g2 h2 n2 l2 r2 len assms(2) by simp
qed

lemma occupied_split:
  assumes "reachable w"
  shows "occupied (game w) = head (snake (game w)) # tail (snake (game w)) ! 0 #
           drop 1 (take (nat (tailLength (snake (game w)))) (tail (snake (game w))))"
proof -
  let ?xs = "take (nat (tailLength (snake (game w)))) (tail (snake (game w)))"
  have "?xs \<noteq> []" "hd ?xs = tail (snake (game w)) ! 0"
    using hd_take_tail[OF reachable_facts(2,1)[OF assms]] by auto
  then have "?xs = tail (snake (game w)) ! 0 # drop 1 ?xs"
    by (cases ?xs) auto
  then show ?thesis unfolding occupied_def by simp
qed

lemma getRandomCoords_fault:
  "tailLength (snake g) \<le> int (length (tail (snake g))) \<Longrightarrow>
   getRandomCoords rs g \<noteq> Inl ArrayOutOfBounds"
proof (induction rs g rule: getRandomCoords.induct)
  case (1 r1 r2 rs g)
  let ?c = "\<lparr>row = of_nat (r1 mod 5), col = of_nat (r2 mod 5)\<rparr> :: Coords"
  have cs: "coordsInSnake ?c g = Inr (?c \<in> set (occupied g))"
    using "1.prems"(1) by (rule coordsInSnake_eq)
  show ?case
    using 1 cs by (auto simp: Let_def split: if_splits)
qed simp_all

lemma sampler_returns:
  assumes "tailLength (snake g) \<le> int (length (tail (snake g)))"
      and "length (occupied g) \<le> 24"
  shows "\<exists>r1 r2 c. getRandomCoords [r1, r2] g = Inr (c, [])"
proof -
  let ?cells = "concat (map (\<lambda>r. map (\<lambda>c. \<lparr>row = of_nat r, col = of_nat c\<rparr> :: Coords) [0..<5]) [0..<5])"
  have d: "distinct ?cells" by code_simp
  have l: "length ?cells = 25" by code_simp
  have "\<not> set ?cells \<subseteq> set (occupied g)"
  proof
    assume "set ?cells \<subseteq> set (occupied g)"
    then have "card (set ?cells) \<le> card (set (occupied g))"
      by (intro card_mono) simp_all
    moreover have "card (set ?cells) = 25" using distinct_card[OF d] l by simp
    moreover have "card (set (occupied g)) \<le> 24"
      using card_length[of "occupied g"] assms(2) by linarith
    ultimately show False by simp
  qed
  then obtain x where x: "x \<in> set ?cells" "x \<notin> set (occupied g)" by blast
  then obtain r c where rc: "r < 5" "c < 5" "x = \<lparr>row = of_nat r, col = of_nat c\<rparr>"
    by auto
  have "getRandomCoords [r, c] g = Inr (x, [])"
    using x(2) rc by (simp add: coordsInSnake_eq[OF assms(1)] Let_def)
  then show ?thesis by blast
qed

lemma moveSnake_direction:
  "moveSnake c e g = Inr g2 \<Longrightarrow> direction (snake g2) = direction (snake g)"
  by (auto simp: moveSnake_def Let_def split: if_splits sum.splits)

lemma stepGame_direction:
  assumes "stepGame rs w = Inr (w', rs')"
  shows "direction (snake (game w')) = turnDirection (currentTurn w) (direction (snake (game w)))"
    and "currentTurn w' = TURN_NONE"
proof -
  obtain outcome g2 where o: "getStepOutcome (turned w) = Inr outcome"
    and h: "handleStepOutcome rs outcome (turned w) = Inr (g2, rs')"
    and w': "w' = \<lparr>game = g2, currentTurn = TURN_NONE\<rparr>"
    using assms by (auto simp: stepGame_unfold split: sum.splits)
  have "direction (snake g2) = direction (snake (turned w))"
    using h by (cases outcome)
      (auto simp: handleStepOutcome_def placeFood_def Let_def
            dest: moveSnake_direction split: sum.splits if_splits)
  then show "direction (snake (game w')) = turnDirection (currentTurn w) (direction (snake (game w)))"
    by (simp add: w' turned_simps)
  show "currentTurn w' = TURN_NONE" by (simp add: w')
qed

lemma stepGame_returns:
  assumes "reachable w" "status (game w) = ONGOING"
  shows "\<exists>rs w' rs'. stepGame rs w = Inr (w', rs')"
proof -
  let ?c = "candidate w" and ?n = "tailLength (snake (game w))"
  note out = ongoing_outcome[OF assms]
  consider (collision) "getStepOutcome (turned w) = Inr COLLISION"
    | (full) "getStepOutcome (turned w) = Inr FULL"
    | (eat) "getStepOutcome (turned w) = Inr EAT" "?n < 23"
    | (move) "getStepOutcome (turned w) = Inr MOVE"
    using out by (auto split: if_splits)
  then show ?thesis
  proof cases
    case collision
    then show ?thesis using stepGame_collision by blast
  next
    case full
    then show ?thesis using ongoing_extend[OF assms] stepGame_full by blast
  next
    case eat
    obtain g2 where g2: "moveSnake ?c True (turned w) = Inr g2"
      and n2: "tailLength (snake g2) = ?n + 1" and l2: "length (tail (snake g2)) = 24"
      and o2: "occupied g2 = ?c # occupied (game w)"
      using ongoing_extend[OF assms] by blast
    have "length (occupied (game w)) \<le> 23"
      using eat(2) reachable_facts(1,2)[OF assms(1)] by (simp add: occupied_def)
    then have "length (occupied g2) \<le> 24" by (simp add: o2)
    then obtain r1 r2 f where "getRandomCoords [r1, r2] g2 = Inr (f, [])"
      using sampler_returns[of g2] n2 l2 eat(2) by auto
    then show ?thesis
      using stepGame_eat[OF eat(1) g2, of "[r1, r2]"] by auto
  next
    case move
    then show ?thesis using ongoing_plain[OF assms] stepGame_move by blast
  qed
qed

lemma stepGame_no_overrun:
  assumes "reachable w" "status (game w) = ONGOING"
  shows "stepGame rs w \<noteq> Inl ArrayOutOfBounds"
proof -
  let ?c = "candidate w" and ?n = "tailLength (snake (game w))"
  note out = ongoing_outcome[OF assms]
  consider (collision) "getStepOutcome (turned w) = Inr COLLISION"
    | (full) "getStepOutcome (turned w) = Inr FULL"
    | (eat) "getStepOutcome (turned w) = Inr EAT" "?n < 23"
    | (move) "getStepOutcome (turned w) = Inr MOVE"
    using out by (auto split: if_splits)
  then show ?thesis
  proof cases
    case collision
    then show ?thesis using stepGame_collision[of w rs] by simp
  next
    case full
    then show ?thesis using ongoing_extend[OF assms] stepGame_full[of w _ rs] by auto
  next
    case eat
    obtain g2 where g2: "moveSnake ?c True (turned w) = Inr g2"
      and n2: "tailLength (snake g2) = ?n + 1" and l2: "length (tail (snake g2)) = 24"
      using ongoing_extend[OF assms] by blast
    have "getRandomCoords rs g2 \<noteq> Inl ArrayOutOfBounds"
      using n2 l2 eat(2) by (intro getRandomCoords_fault) simp
    then show ?thesis
      using stepGame_eat[OF eat(1) g2, of rs] by (auto split: sum.splits)
  next
    case move
    then show ?thesis using ongoing_plain[OF assms] stepGame_move[of w _ rs] by auto
  qed
qed

subsection \<open>Speed, score and display\<close>

lemma reachable_speed:
  assumes "reachable w"
  shows "1 \<le> uint (speed (game w))" "uint (speed (game w)) \<le> 5"
proof -
  have s: "uint (score (game w)) \<le> 22" "uint (speed (game w)) = 1 + uint (score (game w)) div 5"
    using reachable_facts[OF assms] by simp_all
  have "0 \<le> uint (score (game w)) div 5" by (simp add: pos_imp_zdiv_nonneg_iff)
  moreover have "uint (score (game w)) div 5 \<le> 22 div 5" using s(1) by (intro zdiv_mono1) simp_all
  ultimately show "1 \<le> uint (speed (game w))" "uint (speed (game w)) \<le> 5"
    using s(2) by simp_all
qed

lemma displayScore_bounds:
  assumes "uint (score g) \<le> 22" "(x, y, b) \<in> set (displayScore g)"
  shows "0 \<le> x \<and> x < 5 \<and> 0 \<le> y \<and> y < 5"
proof -
  let ?f = "uint (score g) div 5"
  have f0: "0 \<le> ?f" by (simp add: pos_imp_zdiv_nonneg_iff)
  have "?f \<le> 22 div 5" using assms(1) by (intro zdiv_mono1) simp_all
  then have f4: "?f \<le> 4" by simp
  have m: "0 \<le> uint (score g) mod 5" "uint (score g) mod 5 < 5" by simp_all
  consider (rows) r c where "r < nat ?f" "c < 5" "x = int c" "y = int r"
    | (rest) c where "c < nat (uint (score g) mod 5)" "x = int c" "y = ?f"
    using assms(2) by (auto simp: displayScore_def Let_def)
  then show ?thesis
  proof cases
    case rows
    then show ?thesis using f4 by auto
  next
    case rest
    then show ?thesis using f0 f4 m by auto
  qed
qed

lemma drawTail_eq:
  "\<forall>i \<in> set is. i < length arr \<Longrightarrow>
   drawTail arr is = Inr (map (\<lambda>i. (sint (col (arr ! i)), sint (row (arr ! i)), TAIL_BRIGHTNESS)) is)"
  by (induction "is") auto

lemma displayGameState_bounds:
  assumes "reachable w"
  shows "\<exists>ps. displayGameState (game w) = Inr ps
           \<and> (\<forall>(x, y, b) \<in> set ps. 0 \<le> x \<and> x < GRID_SIZE \<and> 0 \<le> y \<and> y < GRID_SIZE)"
proof -
  let ?t = "tail (snake (game w))" and ?n = "nat (tailLength (snake (game w)))"
  have len: "length ?t = 24" and n: "tailLength (snake (game w)) \<le> 24"
    and hg: "inGrid (head (snake (game w)))" and tg: "\<forall>c \<in> set ?t. inGrid c"
    and fg: "inGrid (foodCoords (game w))"
    using reachable_facts[OF assms] by simp_all
  let ?ps = "map (\<lambda>i. (sint (col (?t ! i)), sint (row (?t ! i)), TAIL_BRIGHTNESS)) [0..<?n]"
  have dt: "drawTail ?t [0..<?n] = Inr ?ps"
    using len n by (intro drawTail_eq) auto
  have tp: "\<forall>(x, y, b) \<in> set ?ps. 0 \<le> x \<and> x < GRID_SIZE \<and> 0 \<le> y \<and> y < GRID_SIZE"
  proof -
    have "inGrid (?t ! i)" if "i < ?n" for i
      using tg that len n by (intro bspec[OF tg] nth_mem) simp
    then show ?thesis by (auto simp: inGrid_def)
  qed
  show ?thesis
    using dt tp hg fg by (auto simp: displayGameState_def inGrid_def)
qed

lemma getNextMove_wrap:
  assumes "inGrid (head (snake g))"
  shows "sint (row (getNextMove g)) =
           (case direction (snake g) of
              UP \<Rightarrow> (if sint (row (head (snake g))) - 1 < 0 then GRID_SIZE - 1
                     else sint (row (head (snake g))) - 1)
            | DOWN \<Rightarrow> (if sint (row (head (snake g))) + 1 = GRID_SIZE then 0
                       else sint (row (head (snake g))) + 1)
            | LEFT \<Rightarrow> sint (row (head (snake g)))
            | RIGHT \<Rightarrow> sint (row (head (snake g))))"
    and "sint (col (getNextMove g)) =
           (case direction (snake g) of
              UP \<Rightarrow> sint (col (head (snake g)))
            | DOWN \<Rightarrow> sint (col (head (snake g)))
            | LEFT \<Rightarrow> (if sint (col (head (snake g))) - 1 < 0 then GRID_SIZE - 1
                       else sint (col (head (snake g))) - 1)
            | RIGHT \<Rightarrow> (if sint (col (head (snake g))) + 1 = GRID_SIZE then 0
                        else sint (col (head (snake g))) + 1))"
proof -
  obtain r c where h: "head (snake g) = \<lparr>row = r, col = c\<rparr>"
    by (cases "head (snake g)") auto
  have rc: "r \<in> {0,1,2,3,4}" "c \<in> {0,1,2,3,4}"
    using inGrid_cases[OF assms] h by auto
  show "sint (row (getNextMove g)) =
           (case direction (snake g) of
              UP \<Rightarrow> (if sint (row (head (snake g))) - 1 < 0 then GRID_SIZE - 1
                     else sint (row (head (snake g))) - 1)
            | DOWN \<Rightarrow> (if sint (row (head (snake g))) + 1 = GRID_SIZE then 0
                       else sint (row (head (snake g))) + 1)
            | LEFT \<Rightarrow> sint (row (head (snake g)))
            | RIGHT \<Rightarrow> sint (row (head (snake g))))"
    using rc by (cases "direction (snake g)")
      (auto simp: getNextMove_def h isOutOfBounds_def wraparound_def Let_def)
  show "sint (col (getNextMove g)) =
           (case direction (snake g) of
              UP \<Rightarrow> sint (col (head (snake g)))
            | DOWN \<Rightarrow> sint (col (head (snake g)))
            | LEFT \<Rightarrow> (if sint (col (head (snake g))) - 1 < 0 then GRID_SIZE - 1
                       else sint (col (head (snake g))) - 1)
            | RIGHT \<Rightarrow> (if sint (col (head (snake g))) + 1 = GRID_SIZE then 0
                        else sint (col (head (snake g))) + 1))"
    using rc by (cases "direction (snake g)")
      (auto simp: getNextMove_def h isOutOfBounds_def wraparound_def Let_def)
qed

subsection \<open>Reaching the food\<close>

lemma food_no_collision:
  assumes "reachable w" "status (game w) = ONGOING" "candidate w = foodCoords (game w)"
  shows "getStepOutcome (turned w) =
           Inr (if MAX_SNAKE_LENGTH - 1 \<le> tailLength (snake (game w)) then FULL else EAT)"
  using ongoing_outcome[OF assms(1,2)] ongoing_facts(3)[OF assms(1,2)] assms(3) by simp

lemma full_step:
  assumes "reachable w" "status (game w) = ONGOING" "candidate w = foodCoords (game w)"
      and "tailLength (snake (game w)) = MAX_SNAKE_LENGTH - 1"
  shows "\<exists>w'. stepGame rs w = Inr (w', rs) \<and> status (game w') = WON
           \<and> tailLength (snake (game w')) = MAX_SNAKE_LENGTH
           \<and> occupied (game w') = candidate w # occupied (game w)
           \<and> foodCoords (game w') = foodCoords (game w)
           \<and> score (game w') = score (game w) \<and> speed (game w') = speed (game w)"
proof -
  have o: "getStepOutcome (turned w) = Inr FULL"
    using food_no_collision[OF assms(1-3)] assms(4) by simp
  obtain g2 where g2: "moveSnake (candidate w) True (turned w) = Inr g2"
    and r: "tailLength (snake g2) = tailLength (snake (game w)) + 1"
      "occupied g2 = candidate w # occupied (game w)"
      "foodCoords g2 = foodCoords (game w)" "speed g2 = speed (game w)"
      "score g2 = score (game w)"
    using ongoing_extend[OF assms(1,2)] by blast
  have "stepGame rs w = Inr (\<lparr>game = g2\<lparr>status := WON\<rparr>, currentTurn = TURN_NONE\<rparr>, rs)"
    using stepGame_full[OF o g2] .
  moreover have "occupied (g2\<lparr>status := WON\<rparr>) = occupied g2" by (simp add: occupied_def)
  ultimately show ?thesis using r assms(4) by simp
qed

lemma eat_step:
  assumes "reachable w" "status (game w) = ONGOING" "candidate w = foodCoords (game w)"
      and "tailLength (snake (game w)) < MAX_SNAKE_LENGTH - 1"
      and "stepGame rs w = Inr (w', rs')"
  shows "tailLength (snake (game w')) = tailLength (snake (game w)) + 1"
    and "occupied (game w') = candidate w # occupied (game w)"
    and "uint (score (game w')) = uint (score (game w)) + 1"
    and "uint (speed (game w')) =
           (if uint (score (game w')) mod 5 = 0 then uint (speed (game w)) + 1
            else uint (speed (game w)))"
    and "foodCoords (game w') \<notin> set (occupied (game w'))"
    and "inGrid (foodCoords (game w'))"
    and "status (game w') = ONGOING"
proof -
  let ?n = "tailLength (snake (game w))"
  have o: "getStepOutcome (turned w) = Inr EAT"
    using food_no_collision[OF assms(1-3)] assms(4) by simp
  obtain g2 where g2: "moveSnake (candidate w) True (turned w) = Inr g2"
    and n2: "tailLength (snake g2) = ?n + 1" and l2: "length (tail (snake g2)) = 24"
    and o2: "occupied g2 = candidate w # occupied (game w)"
    and sp2: "speed g2 = speed (game w)" and st2: "status g2 = ONGOING"
    and sc2: "score g2 = score (game w)"
    using ongoing_extend[OF assms(1,2)] by blast
  obtain f where f: "getRandomCoords rs g2 = Inr (f, rs')"
    and ws: "snake (game w') = snake g2" and wf: "foodCoords (game w') = f"
    and wsc: "score (game w') = score g2 + 1"
    and wsp: "speed (game w') = (if uint (score g2 + 1) mod 5 = 0 then speed g2 + 1 else speed g2)"
    and wst: "status (game w') = status g2"
    using stepGame_eat_result[OF o g2 assms(5)] by blast
  have occ3: "occupied (game w') = occupied g2" by (simp add: occupied_def ws)
  have ffree: "f \<notin> set (occupied g2)" "inGrid f"
    using getRandomCoords_free[of g2 rs f rs'] f n2 l2 assms(4) by auto
  have sc22: "uint (score (game w)) < 255"
    using reachable_facts(7)[OF assms(1)] by simp
  have sp5: "uint (speed (game w)) < 255"
    using reachable_speed(2)[OF assms(1)] by simp
  show "tailLength (snake (game w')) = ?n + 1" by (simp add: ws n2)
  show "occupied (game w') = candidate w # occupied (game w)" by (simp add: occ3 o2)
  show sc': "uint (score (game w')) = uint (score (game w)) + 1"
    unfolding wsc sc2 using sc22 by (rule uint_succ)
  show "uint (speed (game w')) =
           (if uint (score (game w')) mod 5 = 0 then uint (speed (game w)) + 1
            else uint (speed (game w)))"
    unfolding wsp wsc sc2 sp2 using uint_succ[OF sp5] by simp
  show "foodCoords (game w') \<notin> set (occupied (game w'))" using ffree(1) by (simp add: occ3 wf)
  show "inGrid (foodCoords (game w'))" using ffree(2) by (simp add: wf)
  show "status (game w') = ONGOING" by (simp add: wst st2)
qed

lemma resetGame_no_overrun:
  assumes "reachable w"
  shows "resetGame rs w \<noteq> Inl ArrayOutOfBounds"
proof -
  let ?g1 = "(game w)\<lparr>snake := (snake (game w))\<lparr>head := \<lparr>row = 2, col = 2\<rparr>,
                 tail := (tail (snake (game w)))[0 := \<lparr>row = 2, col = 1\<rparr>],
                 tailLength := 1, direction := RIGHT\<rparr>,
               speed := 1, status := ONGOING, score := 0\<rparr>"
  have "getRandomCoords rs ?g1 \<noteq> Inl ArrayOutOfBounds"
    using reachable_facts(1)[OF assms] by (intro getRandomCoords_fault) simp
  then show ?thesis
    by (auto simp: resetGame_def initGame_def placeFood_def Let_def split: sum.splits)
qed

lemma reachable_lastTurn: "reachable (handleButtonB length23State)"
  using reachable_length23 by (rule reachable.buttonB)

lemma run_lastStep: "stepGame [] (handleButtonB length23State) = Inr (wonState, [])"
  by code_simp

lemma run_step22: "stepGame [2, 0] length22State = Inr (length23State, [])"
  by code_simp

subsection \<open>Collisions and plain moves\<close>

lemma collision_iff:
  assumes "reachable w" "status (game w) = ONGOING"
  shows "(c \<in> set (occupied (game w)) \<and> c \<noteq> tail (snake (game w)) ! 0)
         \<longleftrightarrow> c \<in> set (head (snake (game w)) #
                    drop 1 (take (nat (tailLength (snake (game w)))) (tail (snake (game w)))))"
  using ongoing_facts(2)[OF assms] unfolding occupied_split[OF assms(1)] by auto

lemma step_lost_iff:
  assumes "reachable w" "status (game w) = ONGOING" "stepGame rs w = Inr (w', rs')"
  shows "status (game w') = LOST \<longleftrightarrow> getStepOutcome (turned w) = Inr COLLISION"
proof -
  note out = ongoing_outcome[OF assms(1,2)]
  consider (collision) "getStepOutcome (turned w) = Inr COLLISION"
    | (full) "getStepOutcome (turned w) = Inr FULL"
    | (eat) "getStepOutcome (turned w) = Inr EAT"
    | (move) "getStepOutcome (turned w) = Inr MOVE"
    using out by (auto split: if_splits)
  then show ?thesis
  proof cases
    case collision
    then show ?thesis using stepGame_collision[OF collision, of rs] assms(3) by auto
  next
    case full
    obtain g2 where "moveSnake (candidate w) True (turned w) = Inr g2"
      using ongoing_extend[OF assms(1,2)] by blast
    then show ?thesis using stepGame_full[OF full, of g2 rs] assms(3) full by auto
  next
    case eat
    obtain g2 where g2: "moveSnake (candidate w) True (turned w) = Inr g2" "status g2 = ONGOING"
      using ongoing_extend[OF assms(1,2)] by blast
    then show ?thesis using stepGame_eat_result[OF eat g2(1) assms(3)] eat by auto
  next
    case move
    obtain g2 where g2: "moveSnake (candidate w) False (turned w) = Inr g2" "status g2 = ONGOING"
      using ongoing_plain[OF assms(1,2)] by blast
    then show ?thesis using stepGame_move[OF move g2(1), of rs] assms(3) move by auto
  qed
qed

lemma plain_step:
  assumes "reachable w" "status (game w) = ONGOING" "getStepOutcome (turned w) = Inr MOVE"
  shows "\<exists>g2. stepGame rs w = Inr (\<lparr>game = g2, currentTurn = TURN_NONE\<rparr>, rs)
           \<and> moveSnake (candidate w) False (turned w) = Inr g2
           \<and> status g2 = ONGOING
           \<and> tailLength (snake g2) = tailLength (snake (game w))
           \<and> occupied g2 = candidate w #
               drop 1 (take (nat (tailLength (snake (game w)))) (tail (snake (game w))))
               @ [head (snake (game w))]
           \<and> set (occupied g2)
               = insert (candidate w) (set (occupied (game w)) - {tail (snake (game w)) ! 0})"
proof -
  let ?xs = "drop 1 (take (nat (tailLength (snake (game w)))) (tail (snake (game w))))"
  obtain g2 where g2: "moveSnake (candidate w) False (turned w) = Inr g2"
    and r: "status g2 = ONGOING" "tailLength (snake g2) = tailLength (snake (game w))"
      "occupied g2 = candidate w # ?xs @ [head (snake (game w))]"
    using ongoing_plain[OF assms(1,2)] by blast
  have "distinct (head (snake (game w)) # tail (snake (game w)) ! 0 # ?xs)"
    using ongoing_facts(2)[OF assms(1,2)] unfolding occupied_split[OF assms(1)] .
  then have "set (occupied g2)
      = insert (candidate w) (set (occupied (game w)) - {tail (snake (game w)) ! 0})"
    unfolding r(3) occupied_split[OF assms(1)] by auto
  then show ?thesis using stepGame_move[OF assms(3) g2, of rs] g2 r by blast
qed

text \<open>
  What the collision test does in the reachable ongoing states: the step loses exactly when
  the candidate is the head or a tail segment other than the one in the first slot
  \<open>tail[0]\<close>, the cell a plain move vacates; a losing step changes nothing but the
  status once the pending turn has been applied and cleared.
\<close>

lemma collision_rule:
  assumes "reachable w" "status (game w) = ONGOING"
  shows "((\<exists>w' rs'. stepGame rs w = Inr (w', rs') \<and> status (game w') = LOST)
            \<longleftrightarrow> candidate w \<in> set (head (snake (game w)) #
                  drop 1 (take (nat (tailLength (snake (game w)))) (tail (snake (game w))))))
         \<and> (getStepOutcome (turned w) = Inr MOVE \<longrightarrow>
              (\<exists>g2. stepGame rs w = Inr (\<lparr>game = g2, currentTurn = TURN_NONE\<rparr>, rs)
                  \<and> status g2 = ONGOING
                  \<and> set (occupied g2)
                      = insert (candidate w)
                          (set (occupied (game w)) - {tail (snake (game w)) ! 0})))
         \<and> (candidate w = tail (snake (game w)) ! 0 \<and> candidate w \<noteq> foodCoords (game w) \<longrightarrow>
              (\<exists>g2. stepGame rs w = Inr (\<lparr>game = g2, currentTurn = TURN_NONE\<rparr>, rs)
                  \<and> moveSnake (candidate w) False (turned w) = Inr g2
                  \<and> status g2 = ONGOING
                  \<and> tailLength (snake g2) = tailLength (snake (game w))
                  \<and> occupied g2 = candidate w #
                      drop 1 (take (nat (tailLength (snake (game w)))) (tail (snake (game w))))
                      @ [head (snake (game w))]))
         \<and> (\<forall>w' rs'. stepGame rs w = Inr (w', rs') \<and> status (game w') = LOST \<longrightarrow>
              w' = \<lparr>game = (turned w)\<lparr>status := LOST\<rparr>, currentTurn = TURN_NONE\<rparr> \<and> rs' = rs)"
proof -
  let ?c = "candidate w"
  let ?hit = "?c \<in> set (head (snake (game w)) #
                  drop 1 (take (nat (tailLength (snake (game w)))) (tail (snake (game w)))))"
  note out = ongoing_outcome[OF assms]
  have hit: "getStepOutcome (turned w) = Inr COLLISION \<longleftrightarrow> ?hit"
    using out collision_iff[OF assms, of ?c] by (auto split: if_splits)
  have a: "(\<exists>w' rs'. stepGame rs w = Inr (w', rs') \<and> status (game w') = LOST) \<longleftrightarrow> ?hit"
  proof
    assume "\<exists>w' rs'. stepGame rs w = Inr (w', rs') \<and> status (game w') = LOST"
    then show ?hit using step_lost_iff[OF assms] hit by blast
  next
    assume ?hit
    then have "getStepOutcome (turned w) = Inr COLLISION" using hit by simp
    then show "\<exists>w' rs'. stepGame rs w = Inr (w', rs') \<and> status (game w') = LOST"
      using stepGame_collision[of w rs] by simp
  qed
  have b: "getStepOutcome (turned w) = Inr MOVE \<longrightarrow>
              (\<exists>g2. stepGame rs w = Inr (\<lparr>game = g2, currentTurn = TURN_NONE\<rparr>, rs)
                  \<and> status g2 = ONGOING
                  \<and> set (occupied g2)
                      = insert ?c (set (occupied (game w)) - {tail (snake (game w)) ! 0}))"
    using plain_step[OF assms, of rs] by blast
  have c: "?c = tail (snake (game w)) ! 0 \<and> ?c \<noteq> foodCoords (game w) \<longrightarrow>
              (\<exists>g2. stepGame rs w = Inr (\<lparr>game = g2, currentTurn = TURN_NONE\<rparr>, rs)
                  \<and> moveSnake ?c False (turned w) = Inr g2
                  \<and> status g2 = ONGOING
                  \<and> tailLength (snake g2) = tailLength (snake (game w))
                  \<and> occupied g2 = ?c #
                      drop 1 (take (nat (tailLength (snake (game w)))) (tail (snake (game w))))
                      @ [head (snake (game w))])"
  proof
    assume h: "?c = tail (snake (game w)) ! 0 \<and> ?c \<noteq> foodCoords (game w)"
    then have "getStepOutcome (turned w) = Inr MOVE" using out by auto
    then show "\<exists>g2. stepGame rs w = Inr (\<lparr>game = g2, currentTurn = TURN_NONE\<rparr>, rs)
                  \<and> moveSnake ?c False (turned w) = Inr g2
                  \<and> status g2 = ONGOING
                  \<and> tailLength (snake g2) = tailLength (snake (game w))
                  \<and> occupied g2 = ?c #
                      drop 1 (take (nat (tailLength (snake (game w)))) (tail (snake (game w))))
                      @ [head (snake (game w))]"
      using plain_step[OF assms, of rs] by blast
  qed
  have d: "\<forall>w' rs'. stepGame rs w = Inr (w', rs') \<and> status (game w') = LOST \<longrightarrow>
              w' = \<lparr>game = (turned w)\<lparr>status := LOST\<rparr>, currentTurn = TURN_NONE\<rparr> \<and> rs' = rs"
  proof (intro allI impI)
    fix w' rs'
    assume h: "stepGame rs w = Inr (w', rs') \<and> status (game w') = LOST"
    then have "getStepOutcome (turned w) = Inr COLLISION"
      using step_lost_iff[OF assms, of rs w' rs'] by simp
    then show "w' = \<lparr>game = (turned w)\<lparr>status := LOST\<rparr>, currentTurn = TURN_NONE\<rparr> \<and> rs' = rs"
      using stepGame_collision[of w rs] h by simp
  qed
  show ?thesis using a b c d by blast
qed

lemma run_squareLost: "stepGame [] squareState = Inr (squareLostState, [])"
  by code_simp

lemma run_fedMoved: "stepGame [] fedState = Inr (fedMovedState, [])"
  by code_simp

section \<open>The properties\<close>

text \<open>
  C1: the source at the failing input. \<open>squareState\<close> is reached by two meals. Its snake
  is the square (3, 1), (3, 2), (2, 2), (2, 1), head first; (2, 1), the initial tail cell,
  is the trailing end of the body and the last of the occupied slots. The candidate is
  that cell and no other cell of the snake, and it is not the food: the step of
  section 4.1 makes a plain move there and the game stays ongoing. The step of the
  source loses: its test exempts \<open>tail[0]\<close>, which after a meal holds the segment next to
  the head.
\<close>

theorem lost_on_trailing_cell_C1:
  "reachable squareState \<and> status (game squareState) = ONGOING
   \<and> occupied (game squareState)
       = [\<lparr>row = 3, col = 1\<rparr>, \<lparr>row = 3, col = 2\<rparr>, \<lparr>row = 2, col = 2\<rparr>, \<lparr>row = 2, col = 1\<rparr>]
   \<and> candidate squareState = \<lparr>row = 2, col = 1\<rparr>
   \<and> candidate squareState = last (occupied (game squareState))
   \<and> candidate squareState \<notin> set (butlast (occupied (game squareState)))
   \<and> candidate squareState \<noteq> foodCoords (game squareState)
   \<and> tail (snake (game squareState)) ! 0 = \<lparr>row = 3, col = 2\<rparr>
   \<and> map_option (\<lambda>(s, rs). (spHead s, spTail s, spStatus s)) (spec_step [] (specOf squareState))
       = Some ((2, 1), [(3, 1), (3, 2), (2, 2)], ONGOING)
   \<and> stepGame [] squareState = Inr (squareLostState, [])
   \<and> status (game squareLostState) = LOST"
proof -
  have e: "status (game squareState) = ONGOING"
    "occupied (game squareState)
       = [\<lparr>row = 3, col = 1\<rparr>, \<lparr>row = 3, col = 2\<rparr>, \<lparr>row = 2, col = 2\<rparr>, \<lparr>row = 2, col = 1\<rparr>]"
    "candidate squareState = \<lparr>row = 2, col = 1\<rparr>"
    "candidate squareState = last (occupied (game squareState))"
    "candidate squareState \<notin> set (butlast (occupied (game squareState)))"
    "candidate squareState \<noteq> foodCoords (game squareState)"
    "tail (snake (game squareState)) ! 0 = \<lparr>row = 3, col = 2\<rparr>"
    "map_option (\<lambda>(s, rs). (spHead s, spTail s, spStatus s)) (spec_step [] (specOf squareState))
       = Some ((2, 1), [(3, 1), (3, 2), (2, 2)], ONGOING)"
    "status (game squareLostState) = LOST"
    by code_simp+
  show ?thesis using e reachable_square run_squareLost by blast
qed

text \<open>
  C2: the source at the failing input. \<open>fedState\<close> is reached from \<open>startState\<close> by one
  meal, an extending move that puts the vacated head position (2, 2) into \<open>tail[0]\<close>, in
  front of the initial tail cell (2, 1): the snake is (2, 3), (2, 2), (2, 1), head first,
  the tail array in the order nearest the head first. The plain move to (2, 4) that
  follows drops the first slot, (2, 2), the segment next to the head, and appends the
  vacated head position (2, 3) behind the trailing segment (2, 1): the body has a gap.
  The movement of section 4.1 leaves (2, 4), (2, 3), (2, 2).
\<close>

theorem plain_move_order_C2:
  "reachable startState
   \<and> occupied (game startState) = [\<lparr>row = 2, col = 2\<rparr>, \<lparr>row = 2, col = 1\<rparr>]
   \<and> stepGame [0, 0] startState = Inr (fedState, [])
   \<and> occupied (game fedState) = [\<lparr>row = 2, col = 3\<rparr>, \<lparr>row = 2, col = 2\<rparr>, \<lparr>row = 2, col = 1\<rparr>]
   \<and> moveSnake \<lparr>row = 2, col = 4\<rparr> False (game fedState) = Inr (game fedMovedState)
   \<and> stepGame [] fedState = Inr (fedMovedState, [])
   \<and> occupied (game fedMovedState)
       = [\<lparr>row = 2, col = 4\<rparr>, \<lparr>row = 2, col = 1\<rparr>, \<lparr>row = 2, col = 3\<rparr>]
   \<and> map_option (\<lambda>(s, rs). spHead s # spTail s) (spec_step [] (specOf fedState))
       = Some [(2, 4), (2, 3), (2, 2)]"
proof -
  have e: "occupied (game startState) = [\<lparr>row = 2, col = 2\<rparr>, \<lparr>row = 2, col = 1\<rparr>]"
    "stepGame [0, 0] startState = Inr (fedState, [])"
    "occupied (game fedState) = [\<lparr>row = 2, col = 3\<rparr>, \<lparr>row = 2, col = 2\<rparr>, \<lparr>row = 2, col = 1\<rparr>]"
    "moveSnake \<lparr>row = 2, col = 4\<rparr> False (game fedState) = Inr (game fedMovedState)"
    "occupied (game fedMovedState)
       = [\<lparr>row = 2, col = 4\<rparr>, \<lparr>row = 2, col = 1\<rparr>, \<lparr>row = 2, col = 3\<rparr>]"
    "map_option (\<lambda>(s, rs). spHead s # spTail s) (spec_step [] (specOf fedState))
       = Some [(2, 4), (2, 3), (2, 2)]"
    by code_simp+
  show ?thesis using e reachable_startState run_fedMoved by blast
qed

text \<open>
  C3, as amended. In every reachable state the tail has at most \<open>MAX_SNAKE_LENGTH\<close> = 24
  segments, the capacity of the array, and at most \<open>MAX_SNAKE_LENGTH - 1\<close> = 23 unless the
  game is won. No step taken by the game loop and no reset indexes the array outside its
  24 slots: at 23 segments the Full branch turns the meal into the win, and that step
  grows the tail to exactly 24.
\<close>

theorem tail_bound_C3:
  assumes "reachable w"
  shows "tailLength (snake (game w)) \<le> MAX_SNAKE_LENGTH
         \<and> length (tail (snake (game w))) = 24
         \<and> (status (game w) \<noteq> WON \<longrightarrow> tailLength (snake (game w)) \<le> MAX_SNAKE_LENGTH - 1)
         \<and> (status (game w) = ONGOING \<longrightarrow> stepGame rs w \<noteq> Inl ArrayOutOfBounds)
         \<and> resetGame rs w \<noteq> Inl ArrayOutOfBounds
         \<and> (status (game w) = ONGOING \<and> candidate w = foodCoords (game w)
              \<and> tailLength (snake (game w)) = MAX_SNAKE_LENGTH - 1 \<longrightarrow>
            (\<exists>w'. stepGame rs w = Inr (w', rs) \<and> status (game w') = WON
                  \<and> tailLength (snake (game w')) = MAX_SNAKE_LENGTH))"
proof -
  have a: "tailLength (snake (game w)) \<le> MAX_SNAKE_LENGTH" "length (tail (snake (game w))) = 24"
    using reachable_facts[OF assms] by simp_all
  have b: "status (game w) \<noteq> WON \<longrightarrow> tailLength (snake (game w)) \<le> MAX_SNAKE_LENGTH - 1"
    using reachable_inv[OF assms] by (simp add: gameInv_def)
  have c: "status (game w) = ONGOING \<longrightarrow> stepGame rs w \<noteq> Inl ArrayOutOfBounds"
    using stepGame_no_overrun[OF assms] by blast
  have d: "resetGame rs w \<noteq> Inl ArrayOutOfBounds"
    using resetGame_no_overrun[OF assms] .
  have e: "status (game w) = ONGOING \<and> candidate w = foodCoords (game w)
              \<and> tailLength (snake (game w)) = MAX_SNAKE_LENGTH - 1 \<longrightarrow>
            (\<exists>w'. stepGame rs w = Inr (w', rs) \<and> status (game w') = WON
                  \<and> tailLength (snake (game w')) = MAX_SNAKE_LENGTH)"
    using full_step[OF assms, of rs] by blast
  show ?thesis using a b c d e by blast
qed

theorem tail_bound_C3_witness:
  "reachable (handleButtonB length23State)
   \<and> status (game (handleButtonB length23State)) = ONGOING
   \<and> tailLength (snake (game (handleButtonB length23State))) = MAX_SNAKE_LENGTH - 1
   \<and> candidate (handleButtonB length23State) = foodCoords (game (handleButtonB length23State))
   \<and> stepGame [] (handleButtonB length23State) \<noteq> Inl ArrayOutOfBounds
   \<and> (\<exists>w'. stepGame [] (handleButtonB length23State) = Inr (w', []) \<and> status (game w') = WON
           \<and> tailLength (snake (game w')) = MAX_SNAKE_LENGTH)"
proof -
  have e: "status (game (handleButtonB length23State)) = ONGOING"
    "tailLength (snake (game (handleButtonB length23State))) = MAX_SNAKE_LENGTH - 1"
    "candidate (handleButtonB length23State) = foodCoords (game (handleButtonB length23State))"
    by code_simp+
  show ?thesis
    using tail_bound_C3[OF reachable_lastTurn, of "[]"] e reachable_lastTurn by simp
qed

text \<open>
  C3 as stated fails: the winning step of \<open>fillScript\<close> leaves a reachable state whose
  tail has 24 segments, one more than \<open>MAX_SNAKE_LENGTH - 1\<close>.
\<close>

theorem tail_bound_C3_counterexample:
  "reachable wonState \<and> tailLength (snake (game wonState)) = 24
   \<and> \<not> tailLength (snake (game wonState)) \<le> MAX_SNAKE_LENGTH - 1"
proof -
  have "tailLength (snake (game wonState)) = 24" by code_simp
  then show ?thesis using reachable_won by simp
qed

text \<open>
  C4, as amended. From a reachable ongoing state whose tail has \<open>MAX_SNAKE_LENGTH - 1\<close> = 23
  segments and whose candidate is the food cell, one step wins: the status becomes \<open>WON\<close>,
  the snake grows by exactly the candidate cell, and no food is placed (the food cell,
  the score, the speed and the results of \<open>rand()\<close> are untouched). With
  \<open>MAX_SNAKE_LENGTH - 2\<close> = 22 segments the same step is an ordinary meal: it returns for
  suitable results of \<open>rand()\<close> and never indexes the tail array out of range, and every
  result has the snake grown by the candidate to 23 segments, the status still
  \<open>ONGOING\<close>, the score raised by 1 and a new food, on a grid cell off the moved snake
  and different from the food just eaten.
\<close>

theorem win_step_C4:
  assumes "reachable w" "status (game w) = ONGOING" "candidate w = foodCoords (game w)"
  shows "(tailLength (snake (game w)) = MAX_SNAKE_LENGTH - 1 \<longrightarrow>
            (\<exists>w'. stepGame rs w = Inr (w', rs) \<and> status (game w') = WON
                  \<and> tailLength (snake (game w')) = tailLength (snake (game w)) + 1
                  \<and> occupied (game w') = candidate w # occupied (game w)
                  \<and> foodCoords (game w') = foodCoords (game w)
                  \<and> score (game w') = score (game w) \<and> speed (game w') = speed (game w)))
         \<and> (tailLength (snake (game w)) = MAX_SNAKE_LENGTH - 2 \<longrightarrow>
              (stepGame rs w = Inr (w', rs') \<longrightarrow>
                 status (game w') = ONGOING
                 \<and> tailLength (snake (game w')) = MAX_SNAKE_LENGTH - 1
                 \<and> occupied (game w') = candidate w # occupied (game w)
                 \<and> uint (score (game w')) = uint (score (game w)) + 1
                 \<and> foodCoords (game w') \<notin> set (occupied (game w'))
                 \<and> inGrid (foodCoords (game w'))
                 \<and> foodCoords (game w') \<noteq> foodCoords (game w))
              \<and> stepGame rs w \<noteq> Inl ArrayOutOfBounds
              \<and> (\<exists>rs0 w0 rs0'. stepGame rs0 w = Inr (w0, rs0')))"
proof -
  have a: "tailLength (snake (game w)) = MAX_SNAKE_LENGTH - 1 \<longrightarrow>
            (\<exists>w'. stepGame rs w = Inr (w', rs) \<and> status (game w') = WON
                  \<and> tailLength (snake (game w')) = tailLength (snake (game w)) + 1
                  \<and> occupied (game w') = candidate w # occupied (game w)
                  \<and> foodCoords (game w') = foodCoords (game w)
                  \<and> score (game w') = score (game w) \<and> speed (game w') = speed (game w))"
    using full_step[OF assms, of rs] by auto
  have b: "status (game w') = ONGOING
           \<and> tailLength (snake (game w')) = MAX_SNAKE_LENGTH - 1
           \<and> occupied (game w') = candidate w # occupied (game w)
           \<and> uint (score (game w')) = uint (score (game w)) + 1
           \<and> foodCoords (game w') \<notin> set (occupied (game w'))
           \<and> inGrid (foodCoords (game w'))
           \<and> foodCoords (game w') \<noteq> foodCoords (game w)"
    if n: "tailLength (snake (game w)) = MAX_SNAKE_LENGTH - 2"
      and st: "stepGame rs w = Inr (w', rs')"
  proof -
    have lt: "tailLength (snake (game w)) < MAX_SNAKE_LENGTH - 1" using n by simp
    note e = eat_step[OF assms lt st]
    have "foodCoords (game w) \<in> set (occupied (game w'))"
      unfolding e(2) using assms(3) by simp
    then have "foodCoords (game w') \<noteq> foodCoords (game w)" using e(5) by auto
    then show ?thesis using e(1,2,3,5,6,7) n by simp
  qed
  have c: "stepGame rs w \<noteq> Inl ArrayOutOfBounds"
    using stepGame_no_overrun[OF assms(1,2)] .
  have d: "\<exists>rs0 w0 rs0'. stepGame rs0 w = Inr (w0, rs0')"
    using stepGame_returns[OF assms(1,2)] .
  show ?thesis using a b c d by blast
qed

theorem win_step_C4_witness:
  "reachable (handleButtonB length23State)
   \<and> status (game (handleButtonB length23State)) = ONGOING
   \<and> candidate (handleButtonB length23State) = foodCoords (game (handleButtonB length23State))
   \<and> tailLength (snake (game (handleButtonB length23State))) = MAX_SNAKE_LENGTH - 1
   \<and> stepGame [] (handleButtonB length23State) = Inr (wonState, [])
   \<and> status (game wonState) = WON
   \<and> tailLength (snake (game wonState)) = MAX_SNAKE_LENGTH
   \<and> foodCoords (game wonState) = foodCoords (game (handleButtonB length23State))
   \<and> reachable length22State \<and> status (game length22State) = ONGOING
   \<and> candidate length22State = foodCoords (game length22State)
   \<and> tailLength (snake (game length22State)) = MAX_SNAKE_LENGTH - 2
   \<and> stepGame [2, 0] length22State = Inr (length23State, [])
   \<and> status (game length23State) = ONGOING
   \<and> tailLength (snake (game length23State)) = MAX_SNAKE_LENGTH - 1
   \<and> foodCoords (game length23State) \<notin> set (occupied (game length23State))
   \<and> foodCoords (game length23State) \<noteq> foodCoords (game length22State)"
proof -
  have e: "status (game (handleButtonB length23State)) = ONGOING"
    "tailLength (snake (game (handleButtonB length23State))) = MAX_SNAKE_LENGTH - 1"
    "candidate (handleButtonB length23State) = foodCoords (game (handleButtonB length23State))"
    by code_simp+
  have f: "status (game length22State) = ONGOING"
    "candidate length22State = foodCoords (game length22State)"
    "tailLength (snake (game length22State)) = MAX_SNAKE_LENGTH - 2"
    by code_simp+
  have won: "status (game wonState) = WON
     \<and> tailLength (snake (game wonState)) = MAX_SNAKE_LENGTH
     \<and> foodCoords (game wonState) = foodCoords (game (handleButtonB length23State))"
    using win_step_C4[OF reachable_lastTurn e(1,3), of "[]"] e(2) run_lastStep by auto
  have meal: "status (game length23State) = ONGOING
     \<and> tailLength (snake (game length23State)) = MAX_SNAKE_LENGTH - 1
     \<and> foodCoords (game length23State) \<notin> set (occupied (game length23State))
     \<and> foodCoords (game length23State) \<noteq> foodCoords (game length22State)"
    using win_step_C4[OF reachable_length22 f(1,2), of "[2, 0]" length23State "[]"] f(3)
      run_step22
    by blast
  show ?thesis
    using e f won meal reachable_lastTurn reachable_length22 run_lastStep run_step22 by blast
qed

text \<open>
  C4 as stated fails: \<open>length22State\<close> is reachable and ongoing, its tail has
  \<open>MAX_SNAKE_LENGTH - 2\<close> = 22 segments and its candidate is the food cell, yet the step
  is an ordinary meal: the game is still ongoing afterwards and a new food was placed.
\<close>

theorem win_step_C4_counterexample:
  "reachable length22State \<and> status (game length22State) = ONGOING
   \<and> tailLength (snake (game length22State)) = MAX_SNAKE_LENGTH - 2
   \<and> candidate length22State = foodCoords (game length22State)
   \<and> stepGame [2, 0] length22State = Inr (length23State, [])
   \<and> status (game length23State) = ONGOING
   \<and> foodCoords (game length23State) \<noteq> foodCoords (game length22State)"
proof -
  have e: "status (game length22State) = ONGOING"
    "tailLength (snake (game length22State)) = MAX_SNAKE_LENGTH - 2"
    "candidate length22State = foodCoords (game length22State)"
    "status (game length23State) = ONGOING"
    "foodCoords (game length23State) \<noteq> foodCoords (game length22State)"
    by code_simp+
  show ?thesis using e reachable_length22 run_step22 by simp
qed

text \<open>
  C5. In a reachable ongoing state whose candidate is the food cell and whose tail is
  shorter than \<open>MAX_SNAKE_LENGTH - 1\<close>, a step that returns adds exactly the candidate to
  the snake (\<open>tailLength\<close> grows by 1), raises the score by 1, raises the speed by 1
  exactly when the new score is a multiple of 5, and leaves the new food on a grid cell
  that is neither the head nor a tail segment of the moved snake. The step does return
  for suitable results of \<open>rand()\<close>.
\<close>

theorem eat_step_C5:
  assumes "reachable w" "status (game w) = ONGOING" "candidate w = foodCoords (game w)"
      and "tailLength (snake (game w)) < MAX_SNAKE_LENGTH - 1"
  shows "(stepGame rs w = Inr (w', rs') \<longrightarrow>
            tailLength (snake (game w')) = tailLength (snake (game w)) + 1
          \<and> occupied (game w') = candidate w # occupied (game w)
          \<and> uint (score (game w')) = uint (score (game w)) + 1
          \<and> uint (speed (game w')) =
               (if uint (score (game w')) mod 5 = 0 then uint (speed (game w)) + 1
                else uint (speed (game w)))
          \<and> foodCoords (game w') \<notin> set (occupied (game w'))
          \<and> inGrid (foodCoords (game w'))
          \<and> status (game w') = ONGOING)
         \<and> (\<exists>rs0 w0 rs0'. stepGame rs0 w = Inr (w0, rs0'))"
  using eat_step[OF assms, of rs w' rs'] stepGame_returns[OF assms(1,2)] by blast

theorem eat_step_C5_witness:
  "reachable startState \<and> status (game startState) = ONGOING
   \<and> candidate startState = foodCoords (game startState)
   \<and> tailLength (snake (game startState)) < MAX_SNAKE_LENGTH - 1
   \<and> stepGame [0, 0] startState = Inr (fedState, [])
   \<and> tailLength (snake (game fedState)) = 2
   \<and> uint (score (game fedState)) = 1
   \<and> uint (speed (game fedState)) = 1
   \<and> foodCoords (game fedState) \<notin> set (occupied (game fedState))"
proof -
  have e: "status (game startState) = ONGOING"
    "candidate startState = foodCoords (game startState)"
    "tailLength (snake (game startState)) < MAX_SNAKE_LENGTH - 1"
    "stepGame [0, 0] startState = Inr (fedState, [])"
    "tailLength (snake (game startState)) = 1" "uint (score (game startState)) = 0"
    "uint (speed (game startState)) = 1"
    by code_simp+
  have c: "tailLength (snake (game fedState)) = tailLength (snake (game startState)) + 1"
    "uint (score (game fedState)) = uint (score (game startState)) + 1"
    "uint (speed (game fedState)) =
       (if uint (score (game fedState)) mod 5 = 0 then uint (speed (game startState)) + 1
        else uint (speed (game startState)))"
    "foodCoords (game fedState) \<notin> set (occupied (game fedState))"
    using eat_step_C5[OF reachable_startState e(1-3), of "[0, 0]" fedState "[]"] e(4)
    by blast+
  have "uint (score (game fedState)) = 1" using c(2) e(6) by simp
  then show ?thesis
    using c e reachable_startState by simp
qed

text \<open>
  C6. The pending turn is a single slot. Button A and then button B leave \<open>TURN_RIGHT\<close>
  in it, whatever it held; the step that follows turns the snake right by the turn table
  (UP to RIGHT, DOWN to LEFT, LEFT to UP, RIGHT to DOWN), so the left turn has no
  effect, and leaves the slot at \<open>TURN_NONE\<close>. In a reachable ongoing state that step
  returns for suitable results of \<open>rand()\<close>.
\<close>

theorem pending_turn_C6:
  "currentTurn (handleButtonB (handleButtonA w)) = TURN_RIGHT
   \<and> (stepGame rs (handleButtonB (handleButtonA w)) = Inr (w', rs') \<longrightarrow>
        direction (snake (game w')) =
          (case direction (snake (game w)) of
             UP \<Rightarrow> RIGHT | DOWN \<Rightarrow> LEFT | LEFT \<Rightarrow> UP | RIGHT \<Rightarrow> DOWN)
        \<and> currentTurn w' = TURN_NONE)
   \<and> (reachable w \<and> status (game w) = ONGOING \<longrightarrow>
        (\<exists>rs0 w0 rs0'. stepGame rs0 (handleButtonB (handleButtonA w)) = Inr (w0, rs0')))"
proof -
  let ?w = "handleButtonB (handleButtonA w)"
  have a: "currentTurn ?w = TURN_RIGHT" "game ?w = game w"
    by (simp_all add: handleButtonA_def handleButtonB_def)
  have b: "stepGame rs ?w = Inr (w', rs') \<longrightarrow>
        direction (snake (game w')) =
          (case direction (snake (game w)) of
             UP \<Rightarrow> RIGHT | DOWN \<Rightarrow> LEFT | LEFT \<Rightarrow> UP | RIGHT \<Rightarrow> DOWN)
        \<and> currentTurn w' = TURN_NONE"
    using stepGame_direction[of rs ?w w' rs'] a
    by (cases "direction (snake (game w))") auto
  have c: "reachable w \<and> status (game w) = ONGOING \<longrightarrow>
        (\<exists>rs0 w0 rs0'. stepGame rs0 ?w = Inr (w0, rs0'))"
    using stepGame_returns[of ?w] a(2) reachable.buttonA[of w] reachable.buttonB[of "handleButtonA w"]
    by auto
  show ?thesis using a(1) b c by blast
qed

theorem pending_turn_C6_witness:
  "stepGame [] (handleButtonB (handleButtonA startState)) = Inr (turnedDownState, [])
   \<and> direction (snake (game startState)) = RIGHT
   \<and> direction (snake (game turnedDownState)) = DOWN
   \<and> currentTurn turnedDownState = TURN_NONE
   \<and> reachable startState \<and> status (game startState) = ONGOING"
proof -
  have e: "stepGame [] (handleButtonB (handleButtonA startState)) = Inr (turnedDownState, [])"
    "direction (snake (game startState)) = RIGHT" "status (game startState) = ONGOING"
    by code_simp+
  show ?thesis
    using pending_turn_C6[of startState "[]" turnedDownState "[]"] e reachable_startState
    by simp
qed

text \<open>
  C7. From a head on the grid the candidate is the head moved one cell in the current
  direction, each axis wrapped on its own: a component that would fall below 0 becomes
  \<open>GRID_SIZE - 1\<close>, one that would reach \<open>GRID_SIZE\<close> becomes 0; the candidate is on the
  grid again. Hence every coordinate a reachable state stores (head, all 24 tail slots,
  food) is on the grid, and \<open>displayGameState\<close> passes only columns and rows in
  \<open>0 .. GRID_SIZE - 1\<close> to \<open>setPixelValue\<close>.
\<close>

theorem wraparound_C7:
  "(inGrid (head (snake g)) \<longrightarrow>
      inGrid (getNextMove g)
      \<and> sint (row (getNextMove g)) =
           (case direction (snake g) of
              UP \<Rightarrow> (if sint (row (head (snake g))) - 1 < 0 then GRID_SIZE - 1
                     else sint (row (head (snake g))) - 1)
            | DOWN \<Rightarrow> (if sint (row (head (snake g))) + 1 = GRID_SIZE then 0
                       else sint (row (head (snake g))) + 1)
            | LEFT \<Rightarrow> sint (row (head (snake g)))
            | RIGHT \<Rightarrow> sint (row (head (snake g))))
      \<and> sint (col (getNextMove g)) =
           (case direction (snake g) of
              UP \<Rightarrow> sint (col (head (snake g)))
            | DOWN \<Rightarrow> sint (col (head (snake g)))
            | LEFT \<Rightarrow> (if sint (col (head (snake g))) - 1 < 0 then GRID_SIZE - 1
                       else sint (col (head (snake g))) - 1)
            | RIGHT \<Rightarrow> (if sint (col (head (snake g))) + 1 = GRID_SIZE then 0
                        else sint (col (head (snake g))) + 1)))
   \<and> (reachable w \<longrightarrow>
        inGrid (head (snake (game w))) \<and> (\<forall>c \<in> set (tail (snake (game w))). inGrid c)
        \<and> inGrid (foodCoords (game w)) \<and> inGrid (candidate w)
        \<and> (\<exists>ps. displayGameState (game w) = Inr ps
              \<and> (\<forall>(x, y, b) \<in> set ps. 0 \<le> x \<and> x < GRID_SIZE \<and> 0 \<le> y \<and> y < GRID_SIZE)))"
proof -
  have c: "inGrid (candidate w)" if "reachable w"
    unfolding candidate_def using reachable_facts(4)[OF that]
    by (intro getNextMove_inGrid) (simp add: turned_simps)
  show ?thesis
    using getNextMove_inGrid[of g] getNextMove_wrap[of g] reachable_facts(4,5,6)[of w] c
      displayGameState_bounds[of w]
    by blast
qed

theorem wraparound_C7_witness:
  "inGrid (head (snake (zeroGame\<lparr>snake := (snake zeroGame)\<lparr>head := \<lparr>row = 0, col = 2\<rparr>\<rparr>\<rparr>)))
   \<and> getNextMove (zeroGame\<lparr>snake := (snake zeroGame)\<lparr>head := \<lparr>row = 0, col = 2\<rparr>\<rparr>\<rparr>)
       = \<lparr>row = 4, col = 2\<rparr>
   \<and> inGrid (getNextMove (zeroGame\<lparr>snake := (snake zeroGame)\<lparr>head := \<lparr>row = 0, col = 2\<rparr>\<rparr>\<rparr>))
   \<and> getNextMove (zeroGame\<lparr>snake := (snake zeroGame)\<lparr>head := \<lparr>row = 2, col = 4\<rparr>,
                                                         direction := RIGHT\<rparr>\<rparr>)
       = \<lparr>row = 2, col = 0\<rparr>
   \<and> reachable wonState \<and> inGrid (candidate wonState)
   \<and> (\<exists>ps. displayGameState (game wonState) = Inr ps \<and> length ps = 26)"
proof -
  let ?g = "zeroGame\<lparr>snake := (snake zeroGame)\<lparr>head := \<lparr>row = 0, col = 2\<rparr>\<rparr>\<rparr>"
  have e: "inGrid (head (snake ?g))" "getNextMove ?g = \<lparr>row = 4, col = 2\<rparr>"
    "getNextMove (zeroGame\<lparr>snake := (snake zeroGame)\<lparr>head := \<lparr>row = 2, col = 4\<rparr>,
                                                         direction := RIGHT\<rparr>\<rparr>)
       = \<lparr>row = 2, col = 0\<rparr>"
    by code_simp+
  have d: "case displayGameState (game wonState) of Inl e \<Rightarrow> False | Inr ps \<Rightarrow> length ps = 26"
    by code_simp
  show ?thesis
    using wraparound_C7[of ?g wonState] e d reachable_won
    by (auto split: sum.splits)
qed

text \<open>
  C8. The step interval is \<open>max 200 (1000 - 200 * (speed - 1))\<close> milliseconds for every
  value of \<open>speed\<close>; it never drops below 200 and does not increase when the speed does.
  The speeds of the reachable states lie between 1 and 5.
\<close>

theorem stepLength_C8:
  "getStepLengthMs g = max 200 (1000 - 200 * (uint (speed g) - 1))
   \<and> 200 \<le> getStepLengthMs g
   \<and> (uint (speed g) \<le> uint (speed g') \<longrightarrow> getStepLengthMs g' \<le> getStepLengthMs g)
   \<and> (reachable w \<longrightarrow> 1 \<le> uint (speed (game w)) \<and> uint (speed (game w)) \<le> 5)"
  using reachable_speed[of w] by (auto simp: getStepLengthMs_def Let_def)

theorem stepLength_C8_witness:
  "getStepLengthMs (game startState) = 1000 \<and> getStepLengthMs (game wonState) = 200
   \<and> uint (speed (game startState)) \<le> uint (speed (game wonState))
   \<and> getStepLengthMs (game wonState) \<le> getStepLengthMs (game startState)
   \<and> reachable wonState \<and> uint (speed (game wonState)) \<le> 5"
proof -
  have e: "getStepLengthMs (game startState) = 1000" "getStepLengthMs (game wonState) = 200"
    "uint (speed (game startState)) \<le> uint (speed (game wonState))"
    by code_simp+
  show ?thesis
    using stepLength_C8[of "game startState" "game wonState" wonState] e reachable_won
    by simp
qed

text \<open>
  C9: the source at the failing inputs. \<open>getStepOutcome\<close> only reads the game, so the two
  calls of \<open>getNextMove\<close> agree; but the step they make is not the step of section 4.1.
  From \<open>startState\<close>, with one tail segment, the meal at (2, 3) is the same step in both
  and leads to \<open>fedState\<close>. The plain move to (2, 4) that follows is not: the step of
  the specification leaves the tail (2, 3), (2, 2), the step of the source the tail cells
  (2, 1) and (2, 3). In \<open>squareState\<close> even the status differs: the step of the
  specification moves onto the trailing cell (2, 1) and the game stays ongoing, the step
  of the source loses.
\<close>

theorem step_differs_from_spec_C9:
  "reachable startState
   \<and> stepGame [0, 0] startState = Inr (fedState, [])
   \<and> map_option fst (spec_step [0, 0] (specOf startState)) = Some (specOf fedState)
   \<and> stepGame [] fedState = Inr (fedMovedState, [])
   \<and> spHead (specOf fedState) = (2, 3)
   \<and> spTail (specOf fedState) = [(2, 2), (2, 1)]
   \<and> spTail (specOf fedMovedState) = [(2, 1), (2, 3)]
   \<and> map_option (\<lambda>(s, rs). (spHead s, spTail s, spStatus s, rs)) (spec_step [] (specOf fedState))
       = Some ((2, 4), [(2, 3), (2, 2)], ONGOING, [])
   \<and> map_option fst (spec_step [] (specOf fedState)) \<noteq> Some (specOf fedMovedState)
   \<and> reachable squareState
   \<and> stepGame [] squareState = Inr (squareLostState, [])
   \<and> spStatus (specOf squareLostState) = LOST
   \<and> map_option (spStatus \<circ> fst) (spec_step [] (specOf squareState)) = Some ONGOING
   \<and> map_option fst (spec_step [] (specOf squareState)) \<noteq> Some (specOf squareLostState)"
proof -
  have e: "stepGame [0, 0] startState = Inr (fedState, [])"
    "map_option fst (spec_step [0, 0] (specOf startState)) = Some (specOf fedState)"
    "spHead (specOf fedState) = (2, 3)"
    "spTail (specOf fedState) = [(2, 2), (2, 1)]"
    "spTail (specOf fedMovedState) = [(2, 1), (2, 3)]"
    "map_option (\<lambda>(s, rs). (spHead s, spTail s, spStatus s, rs)) (spec_step [] (specOf fedState))
       = Some ((2, 4), [(2, 3), (2, 2)], ONGOING, [])"
    "map_option fst (spec_step [] (specOf fedState)) \<noteq> Some (specOf fedMovedState)"
    "spStatus (specOf squareLostState) = LOST"
    "map_option (spStatus \<circ> fst) (spec_step [] (specOf squareState)) = Some ONGOING"
    "map_option fst (spec_step [] (specOf squareState)) \<noteq> Some (specOf squareLostState)"
    by code_simp+
  show ?thesis
    using e reachable_startState reachable_square run_fedMoved run_squareLost by blast
qed

text \<open>
  C10. In every reachable state with status \<open>ONGOING\<close> the score is \<open>tailLength - 1\<close>; in
  every reachable state the score is at most \<open>MAX_SNAKE_LENGTH - 2\<close> = 22, and every pixel
  \<open>displayScore\<close> writes has its column and its row between 0 and 4.
\<close>

theorem score_C10:
  assumes "reachable w"
  shows "(status (game w) = ONGOING \<longrightarrow> uint (score (game w)) = tailLength (snake (game w)) - 1)
         \<and> uint (score (game w)) \<le> MAX_SNAKE_LENGTH - 2
         \<and> (\<forall>(x, y, b) \<in> set (displayScore (game w)). 0 \<le> x \<and> x < 5 \<and> 0 \<le> y \<and> y < 5)"
  using reachable_facts(7)[OF assms] ongoing_facts(4)[OF assms] displayScore_bounds[of "game w"]
  by auto

theorem score_C10_witness:
  "reachable length23State \<and> status (game length23State) = ONGOING
   \<and> uint (score (game length23State)) = 22 \<and> tailLength (snake (game length23State)) = 23
   \<and> (4, 1, 255) \<in> set (displayScore (game length23State))
   \<and> list_all (\<lambda>(x, y, b). 0 \<le> x \<and> x < 5 \<and> 0 \<le> y \<and> y < 5) (displayScore (game length23State))"
proof -
  have e: "status (game length23State) = ONGOING" "tailLength (snake (game length23State)) = 23"
    "(4, 1, 255) \<in> set (displayScore (game length23State))"
    by code_simp+
  show ?thesis
    using score_C10[OF reachable_length23] e reachable_length23
    by (simp add: list_all_iff)
qed

end
